theory Spec2Isabelle
  imports Complex_Main
begin

chapter \<open>DocuSense: webhook-driven ingestion pipeline\<close>

text \<open>
  A shallow embedding of the ingestion and synchronisation code of the repository:
  the chunker, the content extractor and the ingestion script of \<^verbatim>\<open>ingest_local.py\<close>,
  the embedder wrapper (\<^verbatim>\<open>embedding.py\<close>), the graph client
  (\<^verbatim>\<open>graph_client.py\<close>), the file classifier (\<^verbatim>\<open>file_type_filter.py\<close>, \<^verbatim>\<open>large_file_handler.py\<close>,
  \<^verbatim>\<open>queue_based_processor.py\<close>) and the two webhook handlers
  (\<^verbatim>\<open>webhook_handler.py\<close>, prefix \<open>wh_\<close>, and
  \<^verbatim>\<open>azure_function_webhook_enhanced.py\<close>, prefix \<open>enh_\<close>).
  Pure functions are HOL functions. The external services (Graph API, the embedding
  service, the search index, the service bus, the file system) are a record of oracles,
  \<open>world\<close>, that fixes what each call answers; everything the code mutates is a field of
  the record \<open>state\<close>, passed in and returned.
\<close>

section \<open>Python strings\<close>

text \<open>
  \<^verbatim>\<open>str.split()\<close> with no argument splits at runs of whitespace and yields no empty
  word; \<^verbatim>\<open>str.strip()\<close> removes whitespace at both ends. The whitespace characters are
  those of \<^verbatim>\<open>str.isspace\<close> below code point 256.
\<close>

definition is_space :: "char \<Rightarrow> bool" where
  "is_space c = (of_char c \<in> ({9, 10, 11, 12, 13, 28, 29, 30, 31, 32, 133, 160} :: nat set))"

fun split_acc :: "string \<Rightarrow> string \<Rightarrow> string list" where
  "split_acc w [] = (if w = [] then [] else [w])"
| "split_acc w (c # cs) =
     (if is_space c then (if w = [] then [] else [w]) @ split_acc [] cs
      else split_acc (w @ [c]) cs)"

definition py_split :: "string \<Rightarrow> string list" where
  "py_split s = split_acc [] s"

definition py_strip :: "string \<Rightarrow> string" where
  "py_strip s = dropWhile is_space (rev (dropWhile is_space (rev s)))"

text \<open>\<^verbatim>\<open>" ".join(ws)\<close>\<close>

fun join_sp :: "string list \<Rightarrow> string" where
  "join_sp [] = []"
| "join_sp [w] = w"
| "join_sp (w # v # ws) = w @ '' '' @ join_sp (v # ws)"

text \<open>\<^verbatim>\<open>s.startswith(p)\<close>, \<^verbatim>\<open>s.endswith(q)\<close> and \<^verbatim>\<open>x in s\<close> for strings.\<close>

definition startswith :: "string \<Rightarrow> string \<Rightarrow> bool" where
  "startswith s p = (take (length p) s = p)"

definition endswith :: "string \<Rightarrow> string \<Rightarrow> bool" where
  "endswith s q = (length q \<le> length s \<and> drop (length s - length q) s = q)"

fun contains :: "string \<Rightarrow> string \<Rightarrow> bool" where
  "contains [] x = (x = [])"
| "contains (c # cs) x = (startswith (c # cs) x \<or> contains cs x)"

declare contains.simps [simp del]

text \<open>\<^verbatim>\<open>s.split(sep)\<close> for a one-character separator: empty fields are kept.\<close>

fun split_on :: "char \<Rightarrow> string \<Rightarrow> string list" where
  "split_on sep [] = [[]]"
| "split_on sep (c # cs) =
     (if c = sep then [] # split_on sep cs
      else (case split_on sep cs of [] \<Rightarrow> [[c]] | f # fs \<Rightarrow> (c # f) # fs))"

declare split_on.simps [simp del]

text \<open>\<^verbatim>\<open>s.lower()\<close> on the ASCII letters.\<close>

definition lower_char :: "char \<Rightarrow> char" where
  "lower_char c = (let n = (of_char c :: nat) in if 65 \<le> n \<and> n \<le> 90 then char_of (n + 32) else c)"

definition lower :: "string \<Rightarrow> string" where
  "lower s = map lower_char s"

text \<open>
  \<^verbatim>\<open>os.path.splitext(p)[1]\<close> on a POSIX path: the extension starts at the last dot of the
  last path component, leading dots of that component not counting.
\<close>

definition splitext_ext :: "string \<Rightarrow> string" where
  "splitext_ext p =
     (let base = rev (takeWhile (\<lambda>c. c \<noteq> CHR ''/'') (rev p));
          body = dropWhile (\<lambda>c. c = CHR ''.'') base
      in if CHR ''.'' \<in> set body
         then CHR ''.'' # rev (takeWhile (\<lambda>c. c \<noteq> CHR ''.'') (rev body))
         else [])"

text \<open>\<^verbatim>\<open>str(n)\<close> for a non-negative integer, as f-strings print a chunk index.\<close>

function str_nat :: "nat \<Rightarrow> string" where
  "str_nat n = (if n < 10 then [char_of (48 + n)] else str_nat (n div 10) @ [char_of (48 + n mod 10)])"
  by pat_completeness auto
termination
  by (relation "measure id") auto

declare str_nat.simps [simp del]

text \<open>\<^verbatim>\<open>range(i, n, step)\<close> for a positive step, and the slice \<^verbatim>\<open>xs[i:j]\<close> for \<open>0 \<le> i \<le> j\<close>.\<close>

function py_range :: "nat \<Rightarrow> nat \<Rightarrow> nat \<Rightarrow> nat list" where
  "py_range i n step = (if 0 < step \<and> i < n then i # py_range (i + step) n step else [])"
  by pat_completeness auto
termination
  by (relation "measure (\<lambda>(i, n, step). n - i)") auto

declare py_range.simps [simp del]

definition slice :: "'a list \<Rightarrow> nat \<Rightarrow> nat \<Rightarrow> 'a list" where
  "slice xs i j = take (j - i) (drop i xs)"

section \<open>Chunker (\<^verbatim>\<open>ingest_local.py\<close>)\<close>

text \<open>
  \<^verbatim>\<open>def chunk_text(text, size=300)\<close>: every caller in the repository uses the default
  size, which is the constant \<open>chunk_size\<close>. The generator is the list of what it yields.
\<close>

definition chunk_size :: nat where
  "chunk_size = 300"

definition chunk_text :: "string \<Rightarrow> (string \<times> nat) list" where
  "chunk_text text =
     (let words = py_split text in
      concat (map (\<lambda>i. let chunk = join_sp (slice words i (i + chunk_size))
                         in if py_strip chunk \<noteq> [] then [(chunk, i div chunk_size)] else [])
                  (py_range 0 (length words) chunk_size)))"

text \<open>A word as \<^verbatim>\<open>split()\<close> yields it: not empty and free of whitespace.\<close>

definition word_ok :: "string \<Rightarrow> bool" where
  "word_ok w = (w \<noteq> [] \<and> (\<forall>c \<in> set w. \<not> is_space c))"

section \<open>Data model\<close>

text \<open>
  An embedding vector is a list of numbers; the code builds, stores and compares vectors
  and never computes with their entries.
\<close>

type_synonym vector = "real list"

text \<open>
  A document of the search index: the dictionary that is uploaded, by key. The documents
  of the local ingestion script carry no source ids, no tenant and no date.
\<close>

record doc =
  d_id :: string
  d_title :: string
  d_content :: string
  d_chunk :: nat
  d_vector :: vector
  d_source_drive_id :: "string option"
  d_source_item_id :: "string option"
  d_tenant_id :: "string option"
  d_last_modified :: "string option"
  d_file_size_category :: "string option"

text \<open>
  A change record of the delta response. \<open>it_deleted\<close> is \<^verbatim>\<open>"deleted" in item\<close>;
  \<open>it_file\<close> is \<open>None\<close> when the record has no \<^verbatim>\<open>file\<close> facet and otherwise holds
  the facet's \<^verbatim>\<open>mimeType\<close>; the other optional fields are \<open>None\<close> when the key is
  absent. Every record of the delta API carries an id; an absent id is the empty string.
\<close>

record item =
  it_id :: string
  it_deleted :: bool
  it_file :: "string option option"
  it_name :: "string option"
  it_size :: "int option"
  it_lastModifiedDateTime :: "string option"

record delta_response =
  status_code :: int
  delta_value :: "item list"
  odata_nextLink :: "string option"

record file_info =
  fi_name :: "string option"
  fi_lastModifiedDateTime :: "string option"

text \<open>
  What a download meets: the temporary file is created with \<^verbatim>\<open>tempfile.mkstemp\<close> only
  after the request has succeeded, and a failure while the content is written comes after
  the file exists. The argument is the random choice \<^verbatim>\<open>mkstemp\<close> makes for the name of
  the file, one index into its alphabet for each character.
\<close>

datatype download_outcome =
    Downloaded "nat list"
  | FailedBeforeCreate
  | FailedAfterCreate "nat list"

record notification =
  n_clientState :: "string option"
  n_resource :: string
  n_changeType :: string
  n_tenant_id :: "string option"

text \<open>
  The JSON body of a request: not JSON at all, the empty object, another falsy value
  (\<^verbatim>\<open>null\<close>, \<^verbatim>\<open>[]\<close>, \<^verbatim>\<open>0\<close>), another truthy value that is no object, or an object with
  the notifications under \<^verbatim>\<open>value\<close> (the empty list when the key is absent).
\<close>

datatype json_body =
    InvalidJson
  | EmptyObject
  | FalsyNonObject
  | TruthyNonObject
  | Object "notification list"

record request =
  req_validationToken :: "string option"
  req_json :: json_body

datatype json_value = JStr string | JInt int

datatype response_body = PlainText string | JsonObject "(string \<times> json_value) list"

record response =
  resp_status :: int
  resp_body :: response_body
  resp_content_type :: string

record queue_message =
  q_drive_id :: string
  q_item_id :: string
  q_file_name :: string
  q_file_size :: int
  q_tenant_id :: string
  q_queued_at :: string
  q_processing_type :: string

text \<open>The two mutating calls of the index client, recorded when they are made.\<close>

datatype index_call = Upload "doc list" | Delete "string list"

text \<open>
  The messages the code prints or logs on the paths modelled here: every warning and
  error, and the information messages that report a decision. The constructor is the
  message, its arguments the interpolated values; exception texts are left out.
\<close>

datatype log_entry =
    AzureOpenAIError
  | FallingBackToMockEmbedding
  | ErrorDownloadingFile string
  | ErrorGettingFileInfo
  | ErrorRemovingFileFromIndex
  | RemovedChunks nat
  | CouldNotGetFileInfo string
  | SkippingUnsupportedFileType string
  | FailedToDownload string
  | NoTextExtracted string
  | IndexedChunks nat string
  | ErrorIngestingFile string
  | ErrorProcessingDriveDelta
  | DeltaQueryFailed int
  | DeltaHasMorePages
  | ErrorProcessingNotification
  | WebhookValidationRequested string
  | WebhookValidationError
  | InvalidClientState "string option"
  | InvalidJsonInRequestBody
  | EmptyRequestBody
  | NoNotificationsInRequestBody
  | ErrorProcessingWebhook
  | InvalidResourcePathFormat string
  | UnsupportedResourceType string
  | ItemMissingId
  | FileDecision string bool
  | ExceedsMaximumSizeLimit string int
  | EnqueuedLargeFile string int
  | ErrorEnqueueingLargeFile string
  | FailedToEnqueueLargeFile string
  | FileTooLarge string int
  | FailedToStreamDownload string
  | ErrorStreamingDownload string
  | CleanedUpTempFile string
  | UploadedBatch nat string
  | ErrorProcessingFileChunks string
  | CreatingFolder string
  | ErrorProcessingChunk string
  | UploadedLocalBatch nat
  | UploadedFinalBatch nat

text \<open>
  The answers of the outside world during one run. \<open>w_delta\<close> is the first request to the
  delta endpoint of a drive (\<open>None\<close> when the request raises), \<open>w_delta_next\<close> what a
  request to a next-page link would answer; \<open>w_file_text\<close> is what the reader of a
  file's format returns for the file at a path (the empty string when reading raises);
  \<open>w_embedding\<close> is \<open>None\<close> when the call to the embedding service raises;
  \<open>w_tmpdir\<close> is \<^verbatim>\<open>tempfile.gettempdir()\<close>; \<open>w_path_exists\<close>, \<open>w_glob\<close> and
  \<open>w_isfile\<close> answer for the local folder, and \<open>w_uuid4\<close> is the identifier
  \<^verbatim>\<open>uuid.uuid4()\<close> gives to the document with a given running number. The search client
  is taken to be configured, and removing an existing file to succeed.
\<close>

record world =
  WEBHOOK_CLIENT_STATE :: string
  w_headers_ok :: bool
  w_delta :: "string \<Rightarrow> delta_response option"
  w_delta_next :: "string \<Rightarrow> delta_response option"
  w_file_info :: "string \<Rightarrow> string \<Rightarrow> file_info option"
  w_download :: "string \<Rightarrow> string \<Rightarrow> download_outcome"
  w_stream_download :: "string \<Rightarrow> string \<Rightarrow> string \<Rightarrow> download_outcome"
  w_file_text :: "string \<Rightarrow> string"
  w_embedding :: "string \<Rightarrow> vector option"
  w_search_raises :: bool
  w_delete_raises :: bool
  w_upload_raises :: "doc list \<Rightarrow> bool"
  w_queue_send_raises :: bool
  w_utcnow :: string
  w_tmpdir :: string
  w_path_exists :: "string \<Rightarrow> bool"
  w_glob :: "string \<Rightarrow> string list"
  w_isfile :: "string \<Rightarrow> bool"
  w_uuid4 :: "nat \<Rightarrow> string"

text \<open>
  Everything the handlers mutate: the documents of the search index and the mutating
  calls made to it, the module-level dictionary \<^verbatim>\<open>processed_files_cache\<close> (a stored
  value may be Python's \<^verbatim>\<open>None\<close>), the temporary files on disk, the service-bus queue
  and the log.
\<close>

record state =
  index :: "doc list"
  index_calls :: "index_call list"
  processed_files_cache :: "string \<rightharpoonup> string option"
  tmp_files :: "string set"
  queue :: "queue_message list"
  logged :: "log_entry list"

definition add_log :: "log_entry \<Rightarrow> state \<Rightarrow> state" where
  "add_log e s = s\<lparr>logged := logged s @ [e]\<rparr>"

text \<open>\<^verbatim>\<open>d.get(k)\<close> on a dictionary whose values may be \<^verbatim>\<open>None\<close>.\<close>

definition dict_get :: "('k \<rightharpoonup> 'v option) \<Rightarrow> 'k \<Rightarrow> 'v option" where
  "dict_get d k = (case d k of None \<Rightarrow> None | Some v \<Rightarrow> v)"

text \<open>\<^verbatim>\<open>d.get(k, default)\<close> on an optional field, and the truth value of an optional string.\<close>

definition get_or :: "'a option \<Rightarrow> 'a \<Rightarrow> 'a" where
  "get_or x d = (case x of None \<Rightarrow> d | Some v \<Rightarrow> v)"

definition truthy :: "string option \<Rightarrow> bool" where
  "truthy x = (case x of None \<Rightarrow> False | Some v \<Rightarrow> v \<noteq> [])"

section \<open>External collaborators\<close>

subsection \<open>Content extractor (\<^verbatim>\<open>ingest_local.py\<close>)\<close>

text \<open>
  \<^verbatim>\<open>extract_text\<close> chooses the reader by the extension of the path it is given and
  answers the empty string for any other extension and when the reader raises.
\<close>

definition extract_text :: "world \<Rightarrow> string \<Rightarrow> string" where
  "extract_text w path =
     (let ext = lower (splitext_ext path)
      in if ext = ''.pdf'' \<or> ext = ''.docx'' \<or> ext = ''.pptx'' \<or> ext = ''.txt''
         then w_file_text w path
         else [])"

subsection \<open>Embedder (\<^verbatim>\<open>embedding.py\<close>)\<close>

text \<open>
  \<^verbatim>\<open>embed_text\<close> catches every exception of the call to the service, prints two
  messages and returns \<^verbatim>\<open>[0.1] * 1536\<close>; the literal \<^verbatim>\<open>0.1\<close> is the number one tenth here.
\<close>

definition mock_embedding :: vector where
  "mock_embedding = replicate 1536 (1 / 10)"

definition embed_text :: "world \<Rightarrow> string \<Rightarrow> state \<Rightarrow> vector \<times> state" where
  "embed_text w text s =
     (case w_embedding w text of
        Some v \<Rightarrow> (v, s)
      | None \<Rightarrow> (mock_embedding, add_log FallingBackToMockEmbedding (add_log AzureOpenAIError s)))"

subsection \<open>Temporary files (\<^verbatim>\<open>tempfile.mkstemp\<close>)\<close>

text \<open>
  \<^verbatim>\<open>mkstemp(suffix)\<close> creates a file in the temporary directory whose name is the prefix
  \<^verbatim>\<open>tmp\<close>, random characters out of the letters, the digits and the underscore, and the
  suffix, and returns its path. Without a suffix the name has no dot, and the path no
  extension.
\<close>

definition random_characters :: string where
  "random_characters = ''abcdefghijklmnopqrstuvwxyz0123456789_''"

definition mkstemp :: "world \<Rightarrow> nat list \<Rightarrow> string \<Rightarrow> string" where
  "mkstemp w choices suffix =
     w_tmpdir w @ ''/'' @ ''tmp''
       @ map (\<lambda>i. random_characters ! (i mod length random_characters)) choices @ suffix"

subsection \<open>Graph client (\<^verbatim>\<open>graph_client.py\<close>)\<close>

text \<open>\<^verbatim>\<open>download_file\<close> calls \<^verbatim>\<open>tempfile.mkstemp()\<close> with no suffix.\<close>

definition download_file :: "world \<Rightarrow> string \<Rightarrow> string \<Rightarrow> state \<Rightarrow> string option \<times> state" where
  "download_file w drive_id item_id s =
     (case w_download w drive_id item_id of
        Downloaded choices \<Rightarrow>
          (let temp_path = mkstemp w choices []
           in (Some temp_path, s\<lparr>tmp_files := insert temp_path (tmp_files s)\<rparr>))
      | FailedBeforeCreate \<Rightarrow> (None, add_log (ErrorDownloadingFile item_id) s)
      | FailedAfterCreate choices \<Rightarrow>
          (let temp_path = mkstemp w choices []
           in (None, add_log (ErrorDownloadingFile item_id)
                       (s\<lparr>tmp_files := insert temp_path (tmp_files s)\<rparr>))))"

definition get_file_info :: "world \<Rightarrow> string \<Rightarrow> string \<Rightarrow> state \<Rightarrow> file_info option \<times> state" where
  "get_file_info w drive_id item_id s =
     (case w_file_info w drive_id item_id of
        Some info \<Rightarrow> (Some info, s)
      | None \<Rightarrow> (None, add_log ErrorGettingFileInfo s))"

text \<open>\<^verbatim>\<open>os.unlink(path)\<close> / \<^verbatim>\<open>os.remove(path)\<close> of a file that exists.\<close>

definition unlink :: "string \<Rightarrow> state \<Rightarrow> state" where
  "unlink path s = s\<lparr>tmp_files := tmp_files s - {path}\<rparr>"

subsection \<open>Index client\<close>

text \<open>
  The search index as a document store: \<^verbatim>\<open>search\<close> with the filter the handlers build
  returns the documents of one file (of one tenant, when the filter names it),
  \<^verbatim>\<open>delete_documents\<close> removes by key and \<^verbatim>\<open>upload_documents\<close> inserts or replaces by key.
\<close>

definition search_file :: "doc list \<Rightarrow> string \<Rightarrow> string \<Rightarrow> string option \<Rightarrow> doc list" where
  "search_file idx drive_id item_id tenant =
     filter (\<lambda>d. d_source_drive_id d = Some drive_id \<and> d_source_item_id d = Some item_id \<and>
                  (case tenant of None \<Rightarrow> True | Some t \<Rightarrow> d_tenant_id d = Some t)) idx"

definition delete_documents :: "string list \<Rightarrow> doc list \<Rightarrow> doc list" where
  "delete_documents ids idx = filter (\<lambda>d. d_id d \<notin> set ids) idx"

definition upload_documents :: "doc list \<Rightarrow> doc list \<Rightarrow> doc list" where
  "upload_documents docs idx =
     fold (\<lambda>d acc. filter (\<lambda>e. d_id e \<noteq> d_id d) acc @ [d]) docs idx"

text \<open>
  \<^verbatim>\<open>remove_file_from_index\<close>, the same in both handlers and in \<^verbatim>\<open>large_file_handler.py\<close>
  but for the tenant in the filter: the whole body is in a \<^verbatim>\<open>try\<close> that logs.
\<close>

definition remove_file_from_index :: "world \<Rightarrow> string \<Rightarrow> string \<Rightarrow> string option \<Rightarrow> state \<Rightarrow> state" where
  "remove_file_from_index w drive_id item_id tenant s =
     (if w_search_raises w then add_log ErrorRemovingFileFromIndex s
      else let doc_ids = map d_id (search_file (index s) drive_id item_id tenant)
           in if doc_ids \<noteq> [] then
                (let s1 = s\<lparr>index_calls := index_calls s @ [Delete doc_ids]\<rparr>
                 in if w_delete_raises w then add_log ErrorRemovingFileFromIndex s1
                    else add_log (RemovedChunks (length doc_ids))
                           (s1\<lparr>index := delete_documents doc_ids (index s1)\<rparr>))
              else s)"

section \<open>File classifier\<close>

subsection \<open>\<^verbatim>\<open>file_type_filter.py\<close>\<close>

definition SUPPORTED_MIME_TYPES :: "string list" where
  "SUPPORTED_MIME_TYPES =
     [''application/vnd.openxmlformats-officedocument.wordprocessingml.document'',
      ''application/vnd.openxmlformats-officedocument.spreadsheetml.sheet'',
      ''application/vnd.openxmlformats-officedocument.presentationml.presentation'',
      ''application/msword'',
      ''application/vnd.ms-excel'',
      ''application/vnd.ms-powerpoint'',
      ''application/pdf'',
      ''text/plain'', ''text/csv'', ''text/html'', ''text/xml'', ''application/xml'',
      ''text/markdown'', ''text/rtf'', ''application/rtf'',
      ''application/vnd.oasis.opendocument.text'',
      ''application/vnd.oasis.opendocument.spreadsheet'',
      ''application/vnd.oasis.opendocument.presentation'']"

definition SKIP_EXTENSIONS :: "string list" where
  "SKIP_EXTENSIONS =
     [''.zip'', ''.rar'', ''.7z'', ''.tar'', ''.gz'', ''.bz2'',
      ''.mp4'', ''.avi'', ''.mkv'', ''.mov'', ''.wmv'', ''.flv'',
      ''.mp3'', ''.wav'', ''.flac'', ''.aac'', ''.ogg'', ''.wma'',
      ''.jpg'', ''.jpeg'', ''.png'', ''.gif'', ''.bmp'', ''.tiff'', ''.svg'', ''.webp'',
      ''.exe'', ''.msi'', ''.deb'', ''.rpm'', ''.dmg'', ''.pkg'',
      ''.dll'', ''.so'', ''.dylib'',
      ''.dwg'', ''.dxf'', ''.3ds'', ''.blend'', ''.max'',
      ''.db'', ''.sqlite'', ''.mdb'', ''.accdb'',
      ''.tmp'', ''.temp'', ''.cache'', ''.log'']"

text \<open>
  The second component of the result of \<^verbatim>\<open>should_process_file\<close> is a message for the
  log; here it is the branch that decided.
\<close>

datatype reason =
    SkippedBinaryFileType
  | SupportedMimeType
  | TextFile
  | BinaryMimeType
  | TextFileExtension
  | UnknownTypeAndLargeSize
  | SmallUnknownFile

definition should_process_file :: "string \<Rightarrow> string option \<Rightarrow> int \<Rightarrow> bool \<times> reason" where
  "should_process_file file_name mime_type file_size =
     (let file_name_lower = lower file_name;
          binary_prefixes = [''image/'', ''video/'', ''audio/'', ''application/octet-stream''];
          text_extensions = [''.txt'', ''.md'', ''.csv'', ''.json'', ''.xml'', ''.html'', ''.htm'', ''.rtf'']
      in if list_ex (endswith file_name_lower) SKIP_EXTENSIONS then (False, SkippedBinaryFileType)
         else if truthy mime_type \<and> the mime_type \<in> set SUPPORTED_MIME_TYPES then (True, SupportedMimeType)
         else if truthy mime_type \<and> startswith (the mime_type) ''text/'' then (True, TextFile)
         else if truthy mime_type \<and> list_ex (startswith (the mime_type)) binary_prefixes
              then (False, BinaryMimeType)
         else if list_ex (endswith file_name_lower) text_extensions then (True, TextFileExtension)
         else if file_size > 10 * 1024 * 1024 then (False, UnknownTypeAndLargeSize)
         else (True, SmallUnknownFile))"

subsection \<open>\<^verbatim>\<open>large_file_handler.py\<close>: size tiers\<close>

definition MAX_STANDARD_FILE_SIZE :: int where
  "MAX_STANDARD_FILE_SIZE = 50 * 1024 * 1024"

definition MAX_LARGE_FILE_SIZE :: int where
  "MAX_LARGE_FILE_SIZE = 200 * 1024 * 1024"

definition can_process_file_size :: "int \<Rightarrow> bool \<times> string" where
  "can_process_file_size file_size =
     (if file_size \<le> MAX_STANDARD_FILE_SIZE then (True, ''standard'')
      else if file_size \<le> MAX_LARGE_FILE_SIZE then (True, ''streaming'')
      else (False, ''too_large''))"

subsection \<open>\<^verbatim>\<open>queue_based_processor.py\<close>\<close>

definition LARGE_FILE_QUEUE_NAME :: string where
  "LARGE_FILE_QUEUE_NAME = ''large-file-processing''"

definition MAX_QUEUE_FILE_SIZE :: int where
  "MAX_QUEUE_FILE_SIZE = 1024 * 1024 * 1024"

definition should_use_queue_processing :: "int \<Rightarrow> bool" where
  "should_use_queue_processing file_size = (file_size > 200 * 1024 * 1024)"

text \<open>
  The size check and the send are inside one \<^verbatim>\<open>try\<close>; a send that raises is logged and
  answered with \<^verbatim>\<open>False\<close>.
\<close>

definition enqueue_large_file_processing ::
  "world \<Rightarrow> string \<Rightarrow> string \<Rightarrow> string \<Rightarrow> int \<Rightarrow> string \<Rightarrow> state \<Rightarrow> bool \<times> state" where
  "enqueue_large_file_processing w drive_id item_id file_name file_size tenant_id s =
     (if file_size > MAX_QUEUE_FILE_SIZE
      then (False, add_log (ExceedsMaximumSizeLimit file_name file_size) s)
      else let message_data =
                 \<lparr>q_drive_id = drive_id, q_item_id = item_id, q_file_name = file_name,
                  q_file_size = file_size, q_tenant_id = tenant_id,
                  q_queued_at = w_utcnow w, q_processing_type = ''large_file''\<rparr>
           in if w_queue_send_raises w
              then (False, add_log (ErrorEnqueueingLargeFile file_name) s)
              else (True, add_log (EnqueuedLargeFile file_name file_size)
                            (s\<lparr>queue := queue s @ [message_data]\<rparr>)))"

section \<open>Webhook handler (\<^verbatim>\<open>webhook_handler.py\<close>)\<close>

subsection \<open>Idempotency tracker\<close>

definition wh_is_already_processed :: "state \<Rightarrow> string \<Rightarrow> string \<Rightarrow> string option \<Rightarrow> bool" where
  "wh_is_already_processed s drive_id item_id last_modified =
     (let cache_key = drive_id @ ''_'' @ item_id;
          cached_timestamp = dict_get (processed_files_cache s) cache_key
      in cached_timestamp = last_modified)"

definition wh_mark_as_processed :: "string \<Rightarrow> string \<Rightarrow> string option \<Rightarrow> state \<Rightarrow> state" where
  "wh_mark_as_processed drive_id item_id last_modified s =
     (let cache_key = drive_id @ ''_'' @ item_id
      in s\<lparr>processed_files_cache := (processed_files_cache s)(cache_key \<mapsto> last_modified)\<rparr>)"

subsection \<open>Single-file ingestion\<close>

text \<open>
  The loop over \<^verbatim>\<open>chunk_text(content)\<close>. Its body is in a \<^verbatim>\<open>try\<close>, but
  \<^verbatim>\<open>embed_text\<close> catches every exception itself and building the dictionary cannot
  raise, so the handler of the loop is never entered.
\<close>

fun wh_build_docs ::
  "world \<Rightarrow> string \<Rightarrow> string \<Rightarrow> string \<Rightarrow> string option \<Rightarrow> (string \<times> nat) list \<Rightarrow> doc list \<Rightarrow> state
     \<Rightarrow> doc list \<times> state" where
  "wh_build_docs w drive_id item_id file_name modified [] docs s = (docs, s)"
| "wh_build_docs w drive_id item_id file_name modified ((snippet, chunk_idx) # rest) docs s =
     (case embed_text w snippet s of
        (embedding, s1) \<Rightarrow>
          wh_build_docs w drive_id item_id file_name modified rest
            (docs @ [\<lparr>d_id = drive_id @ ''_'' @ item_id @ ''_'' @ str_nat chunk_idx,
                      d_title = file_name,
                      d_content = snippet,
                      d_chunk = chunk_idx,
                      d_vector = embedding,
                      d_source_drive_id = Some drive_id,
                      d_source_item_id = Some item_id,
                      d_tenant_id = None,
                      d_last_modified = modified,
                      d_file_size_category = None\<rparr>]) s1)"

text \<open>
  \<^verbatim>\<open>ingest_single_file\<close> returns nothing on every path. An exception of
  \<^verbatim>\<open>upload_documents\<close> goes to the handler of the outer \<^verbatim>\<open>try\<close>, which prints and
  returns; the \<^verbatim>\<open>os.unlink\<close> after the upload is then not reached.
\<close>

definition wh_ingest_single_file :: "world \<Rightarrow> string \<Rightarrow> string \<Rightarrow> state \<Rightarrow> state" where
  "wh_ingest_single_file w drive_id item_id s =
     (case get_file_info w drive_id item_id s of
        (None, s1) \<Rightarrow> add_log (CouldNotGetFileInfo item_id) s1
      | (Some info, s1) \<Rightarrow>
          let file_name = get_or (fi_name info) ''Unknown'';
              file_ext = lower (splitext_ext file_name);
              supported_extensions = [''.pdf'', ''.docx'', ''.pptx'', ''.txt'']
          in if file_ext \<notin> set supported_extensions
             then add_log (SkippingUnsupportedFileType file_name) s1
             else (case download_file w drive_id item_id s1 of
                     (temp_path, s2) \<Rightarrow>
                       if \<not> truthy temp_path then add_log (FailedToDownload file_name) s2
                       else let content = extract_text w (the temp_path)
                            in if py_strip content = []
                               then unlink (the temp_path) (add_log (NoTextExtracted file_name) s2)
                               else (case wh_build_docs w drive_id item_id file_name
                                            (fi_lastModifiedDateTime info) (chunk_text content) []
                                            (remove_file_from_index w drive_id item_id None s2) of
                                       (docs, s3) \<Rightarrow>
                                         if docs \<noteq> [] then
                                           (let s4 = s3\<lparr>index_calls := index_calls s3 @ [Upload docs]\<rparr>
                                            in if w_upload_raises w docs
                                               then add_log (ErrorIngestingFile item_id) s4
                                               else unlink (the temp_path)
                                                      (add_log (IndexedChunks (length docs) file_name)
                                                         (s4\<lparr>index := upload_documents docs (index s4)\<rparr>)))
                                         else unlink (the temp_path) s3)))"

subsection \<open>Delta resolver\<close>

text \<open>
  \<open>wh_process_change\<close> is the body of the loop over the change records of
  \<^verbatim>\<open>process_drive_delta\<close>. Nothing in it raises: removal and ingestion catch every
  exception themselves.
\<close>

definition wh_process_change :: "world \<Rightarrow> string \<Rightarrow> state \<Rightarrow> item \<Rightarrow> state" where
  "wh_process_change w drive_id s item =
     (if it_deleted item then remove_file_from_index w drive_id (it_id item) None s
      else if it_file item \<noteq> None then
        (let item_id = it_id item;
             last_modified = it_lastModifiedDateTime item
         in if \<not> wh_is_already_processed s drive_id item_id last_modified
            then wh_mark_as_processed drive_id item_id last_modified
                   (wh_ingest_single_file w drive_id item_id s)
            else s)
      else s)"

definition wh_process_drive_delta :: "world \<Rightarrow> string \<Rightarrow> state \<Rightarrow> state" where
  "wh_process_drive_delta w drive_id s =
     (if \<not> w_headers_ok w then add_log ErrorProcessingDriveDelta s
      else (case w_delta w drive_id of
              None \<Rightarrow> add_log ErrorProcessingDriveDelta s
            | Some response \<Rightarrow>
                if status_code response = 200
                then (let changes = delta_value response
                      in foldl (wh_process_change w drive_id) s changes)
                else add_log (DeltaQueryFailed (status_code response)) s))"

subsection \<open>Notification router\<close>

definition wh_process_file_change :: "world \<Rightarrow> state \<Rightarrow> notification \<Rightarrow> state" where
  "wh_process_file_change w s notification =
     (let resource = n_resource notification
      in if contains resource ''/drives/''
         then (let parts = split_on (CHR ''/'') resource
               in if 2 < length parts then wh_process_drive_delta w (parts ! 2) s
                  else add_log ErrorProcessingNotification s)
         else s)"

fun wh_check_client_states :: "world \<Rightarrow> notification list \<Rightarrow> state \<Rightarrow> bool \<times> state" where
  "wh_check_client_states w [] s = (True, s)"
| "wh_check_client_states w (notification # rest) s =
     (let client_state = n_clientState notification
      in if client_state \<noteq> Some (WEBHOOK_CLIENT_STATE w)
         then (False, add_log (InvalidClientState client_state) s)
         else wh_check_client_states w rest s)"

definition wh_validate_webhook :: "world \<Rightarrow> request \<Rightarrow> state \<Rightarrow> bool \<times> state" where
  "wh_validate_webhook w req s =
     (case req_json req of
        Object notifications \<Rightarrow> wh_check_client_states w notifications s
      | EmptyObject \<Rightarrow> (True, s)
      | _ \<Rightarrow> (False, add_log WebhookValidationError s))"

text \<open>
  The endpoint returns a dictionary, which the framework sends as a JSON object with
  status 200, or raises \<^verbatim>\<open>HTTPException(401)\<close>. The background tasks it schedules run
  after the response, in the order they were added; the state returned is the one after
  them.
\<close>

definition wh_handle_graph_webhook :: "world \<Rightarrow> request \<Rightarrow> state \<Rightarrow> response \<times> state" where
  "wh_handle_graph_webhook w req s =
     (let validation_token = req_validationToken req
      in if truthy validation_token
         then (\<lparr>resp_status = 200,
                resp_body = JsonObject [(''validationToken'', JStr (the validation_token))],
                resp_content_type = ''application/json''\<rparr>,
               add_log (WebhookValidationRequested (the validation_token)) s)
         else (case wh_validate_webhook w req s of
                 (validation_result, s1) \<Rightarrow>
                   if \<not> validation_result
                   then (\<lparr>resp_status = 401,
                          resp_body = JsonObject [(''detail'', JStr ''Unauthorized'')],
                          resp_content_type = ''application/json''\<rparr>, s1)
                   else (let notifications = (case req_json req of Object ns \<Rightarrow> ns | _ \<Rightarrow> [])
                         in (\<lparr>resp_status = 200,
                               resp_body = JsonObject [(''status'', JStr ''accepted'')],
                               resp_content_type = ''application/json''\<rparr>,
                             foldl (wh_process_file_change w) s1 notifications))))"

section \<open>Large-file processing (\<^verbatim>\<open>large_file_handler.py\<close>)\<close>

text \<open>
  \<^verbatim>\<open>stream_download_large_file\<close> gives the temporary file the suffix
  \<^verbatim>\<open>_{file_name}\<close>, and removes the file itself when the response is not 200 or when an
  exception comes after the file was created.
\<close>

definition stream_download_large_file ::
  "world \<Rightarrow> string \<Rightarrow> string \<Rightarrow> string \<Rightarrow> state \<Rightarrow> string option \<times> state" where
  "stream_download_large_file w drive_id item_id file_name s =
     (case w_stream_download w drive_id item_id file_name of
        Downloaded choices \<Rightarrow>
          (let temp_path = mkstemp w choices (''_'' @ file_name)
           in (Some temp_path, s\<lparr>tmp_files := insert temp_path (tmp_files s)\<rparr>))
      | FailedBeforeCreate \<Rightarrow> (None, add_log (ErrorStreamingDownload file_name) s)
      | FailedAfterCreate choices \<Rightarrow>
          (let temp_path = mkstemp w choices (''_'' @ file_name)
           in (None, unlink temp_path
                       (add_log (ErrorStreamingDownload file_name)
                          (s\<lparr>tmp_files := insert temp_path (tmp_files s)\<rparr>)))))"

text \<open>
  \<^verbatim>\<open>process_text_in_batches\<close> is a generator and \<^verbatim>\<open>process_file_in_chunks\<close> uploads
  each batch as it is yielded: the chunks after a batch are embedded only once that batch
  is uploaded. \<open>upload_batches\<close> is the two loops together; its Boolean is \<open>False\<close> when an
  upload raised, which ends both.
\<close>

fun upload_batches ::
  "world \<Rightarrow> string \<Rightarrow> string \<Rightarrow> string \<Rightarrow> string \<Rightarrow> nat \<Rightarrow> (string \<times> nat) list \<Rightarrow> doc list \<Rightarrow> state
     \<Rightarrow> bool \<times> state" where
  "upload_batches w file_name drive_id item_id tenant_id batch_size [] batch_docs s =
     (if batch_docs \<noteq> [] then
        (let s1 = s\<lparr>index_calls := index_calls s @ [Upload batch_docs]\<rparr>
         in if w_upload_raises w batch_docs then (False, s1)
            else (True, add_log (UploadedBatch (length batch_docs) file_name)
                          (s1\<lparr>index := upload_documents batch_docs (index s1)\<rparr>)))
      else (True, s))"
| "upload_batches w file_name drive_id item_id tenant_id batch_size ((snippet, chunk_idx) # rest) batch_docs s =
     (case embed_text w snippet s of
        (embedding, s1) \<Rightarrow>
          let batch_docs1 = batch_docs @
                [\<lparr>d_id = tenant_id @ ''_'' @ drive_id @ ''_'' @ item_id @ ''_'' @ str_nat chunk_idx,
                  d_title = file_name,
                  d_content = snippet,
                  d_chunk = chunk_idx,
                  d_vector = embedding,
                  d_source_drive_id = Some drive_id,
                  d_source_item_id = Some item_id,
                  d_tenant_id = Some tenant_id,
                  d_last_modified = Some (w_utcnow w),
                  d_file_size_category = Some ''large''\<rparr>]
          in if length batch_docs1 \<ge> batch_size then
               (let s2 = s1\<lparr>index_calls := index_calls s1 @ [Upload batch_docs1]\<rparr>
                in if w_upload_raises w batch_docs1 then (False, s2)
                   else upload_batches w file_name drive_id item_id tenant_id batch_size rest []
                          (add_log (UploadedBatch (length batch_docs1) file_name)
                             (s2\<lparr>index := upload_documents batch_docs1 (index s2)\<rparr>)))
             else upload_batches w file_name drive_id item_id tenant_id batch_size rest batch_docs1 s1)"

definition process_file_in_chunks ::
  "world \<Rightarrow> string \<Rightarrow> string \<Rightarrow> string \<Rightarrow> string \<Rightarrow> string \<Rightarrow> state \<Rightarrow> bool \<times> state" where
  "process_file_in_chunks w temp_path drive_id item_id file_name tenant_id s =
     (let content = extract_text w temp_path
      in if py_strip content = [] then (False, add_log (NoTextExtracted file_name) s)
         else (case upload_batches w file_name drive_id item_id tenant_id 10 (chunk_text content) []
                      (remove_file_from_index w drive_id item_id (Some tenant_id) s) of
                 (True, s1) \<Rightarrow> (True, s1)
               | (False, s1) \<Rightarrow> (False, add_log (ErrorProcessingFileChunks file_name) s1)))"

text \<open>The \<^verbatim>\<open>finally\<close> block of \<^verbatim>\<open>process_large_file\<close> runs on every way out.\<close>

definition process_large_file ::
  "world \<Rightarrow> string \<Rightarrow> string \<Rightarrow> string \<Rightarrow> int \<Rightarrow> string \<Rightarrow> state \<Rightarrow> bool \<times> state" where
  "process_large_file w drive_id item_id file_name file_size tenant_id s =
     (case stream_download_large_file w drive_id item_id file_name s of
        (temp_path, s1) \<Rightarrow>
          let (success, s2) =
                (if \<not> truthy temp_path then (False, add_log (FailedToStreamDownload file_name) s1)
                 else process_file_in_chunks w (the temp_path) drive_id item_id file_name tenant_id s1)
          in if truthy temp_path \<and> the temp_path \<in> tmp_files s2
             then (success, add_log (CleanedUpTempFile (the temp_path)) (unlink (the temp_path) s2))
             else (success, s2))"

text \<open>
  \<^verbatim>\<open>ingest_single_file_standard\<close> is a placeholder in the source: it returns
  \<^verbatim>\<open>True\<close> and does nothing else.
\<close>

definition ingest_single_file_standard :: "string \<Rightarrow> string \<Rightarrow> string \<Rightarrow> string \<Rightarrow> state \<Rightarrow> bool \<times> state" where
  "ingest_single_file_standard drive_id item_id file_name tenant_id s = (True, s)"

definition ingest_file_with_size_handling ::
  "world \<Rightarrow> string \<Rightarrow> string \<Rightarrow> string \<Rightarrow> int \<Rightarrow> string \<Rightarrow> state \<Rightarrow> bool \<times> state" where
  "ingest_file_with_size_handling w drive_id item_id file_name file_size tenant_id s =
     (case can_process_file_size file_size of
        (can_process, method) \<Rightarrow>
          if \<not> can_process then (False, add_log (FileTooLarge file_name file_size) s)
          else if method = ''standard''
               then ingest_single_file_standard drive_id item_id file_name tenant_id s
               else process_large_file w drive_id item_id file_name file_size tenant_id s)"

section \<open>Enhanced function handler (\<^verbatim>\<open>azure_function_webhook_enhanced.py\<close>)\<close>

subsection \<open>Client-state validation\<close>

text \<open>
  \<^verbatim>\<open>WEBHOOK_CLIENT_STATE\<close> is read from the environment, so it is a parameter here. The
  slice \<^verbatim>\<open>client_state[10:-8]\<close> is empty when the string has fewer than 19 characters.
\<close>

definition validate_client_state :: "string \<Rightarrow> string option \<Rightarrow> string option" where
  "validate_client_state secret client_state =
     (if \<not> truthy client_state then None
      else let cs = the client_state
           in if cs = secret then Some ''default''
              else if startswith cs ''docusense-'' \<and> endswith cs ''-webhook''
                   then (let tenant_id = drop 10 (take (length cs - 8) cs)
                         in if tenant_id \<noteq> [] then Some tenant_id else None)
                   else None)"

subsection \<open>Idempotency tracker\<close>

definition enh_is_already_processed :: "state \<Rightarrow> string \<Rightarrow> string \<Rightarrow> string option \<Rightarrow> string \<Rightarrow> bool" where
  "enh_is_already_processed s drive_id item_id last_modified tenant_id =
     (let cache_key = tenant_id @ ''_'' @ drive_id @ ''_'' @ item_id;
          cached_timestamp = dict_get (processed_files_cache s) cache_key
      in cached_timestamp = last_modified)"

definition enh_mark_as_processed :: "string \<Rightarrow> string \<Rightarrow> string option \<Rightarrow> string \<Rightarrow> state \<Rightarrow> state" where
  "enh_mark_as_processed drive_id item_id last_modified tenant_id s =
     (let cache_key = tenant_id @ ''_'' @ drive_id @ ''_'' @ item_id
      in s\<lparr>processed_files_cache := (processed_files_cache s)(cache_key \<mapsto> last_modified)\<rparr>)"

subsection \<open>Single-file ingestion\<close>

text \<open>
  The loop over \<^verbatim>\<open>chunk_text(content)\<close>, as in the webhook handler: nothing in its body
  raises, since \<^verbatim>\<open>embed_text\<close> catches every exception itself.
\<close>

fun enh_build_docs ::
  "world \<Rightarrow> string \<Rightarrow> string \<Rightarrow> string \<Rightarrow> string \<Rightarrow> (string \<times> nat) list \<Rightarrow> doc list \<Rightarrow> state
     \<Rightarrow> doc list \<times> state" where
  "enh_build_docs w drive_id item_id file_name tenant_id [] docs s = (docs, s)"
| "enh_build_docs w drive_id item_id file_name tenant_id ((snippet, chunk_idx) # rest) docs s =
     (case embed_text w snippet s of
        (embedding, s1) \<Rightarrow>
          enh_build_docs w drive_id item_id file_name tenant_id rest
            (docs @ [\<lparr>d_id = tenant_id @ ''_'' @ drive_id @ ''_'' @ item_id @ ''_'' @ str_nat chunk_idx,
                      d_title = file_name,
                      d_content = snippet,
                      d_chunk = chunk_idx,
                      d_vector = embedding,
                      d_source_drive_id = Some drive_id,
                      d_source_item_id = Some item_id,
                      d_tenant_id = Some tenant_id,
                      d_last_modified = Some (w_utcnow w),
                      d_file_size_category = None\<rparr>]) s1)"

text \<open>
  \<open>enh_ingest_body\<close> is the \<^verbatim>\<open>try\<close> block of \<^verbatim>\<open>ingest_single_file\<close> with its handler,
  given the result of the download; \<open>enh_ingest_single_file\<close> adds the \<^verbatim>\<open>finally\<close>
  block, which removes the temporary file when there is one.
\<close>

definition enh_ingest_body ::
  "world \<Rightarrow> string \<Rightarrow> string \<Rightarrow> string \<Rightarrow> string \<Rightarrow> string option \<Rightarrow> state \<Rightarrow> state" where
  "enh_ingest_body w drive_id item_id file_name tenant_id temp_path s =
     (if \<not> truthy temp_path then add_log (FailedToDownload file_name) s
      else let content = extract_text w (the temp_path)
           in if py_strip content = [] then add_log (NoTextExtracted file_name) s
              else (case enh_build_docs w drive_id item_id file_name tenant_id (chunk_text content) []
                           (remove_file_from_index w drive_id item_id (Some tenant_id) s) of
                      (docs, s1) \<Rightarrow>
                        if docs \<noteq> [] then
                          (let s2 = s1\<lparr>index_calls := index_calls s1 @ [Upload docs]\<rparr>
                           in if w_upload_raises w docs
                              then add_log (ErrorIngestingFile item_id) s2
                              else add_log (IndexedChunks (length docs) file_name)
                                     (s2\<lparr>index := upload_documents docs (index s2)\<rparr>))
                        else s1))"

definition enh_ingest_single_file ::
  "world \<Rightarrow> string \<Rightarrow> string \<Rightarrow> string \<Rightarrow> string \<Rightarrow> state \<Rightarrow> state" where
  "enh_ingest_single_file w drive_id item_id file_name tenant_id s =
     (case download_file w drive_id item_id s of
        (temp_path, s1) \<Rightarrow>
          let s2 = enh_ingest_body w drive_id item_id file_name tenant_id temp_path s1
          in if truthy temp_path \<and> the temp_path \<in> tmp_files s2
             then unlink (the temp_path) s2
             else s2)"

subsection \<open>Delta resolver and orchestrator\<close>

text \<open>
  In \<^verbatim>\<open>process_single_item_change\<close> the statements after the size check (the
  idempotency check, the call of \<^verbatim>\<open>ingest_file_with_size_handling\<close> and the update of
  the cache) are indented under the \<^verbatim>\<open>return\<close> of the branch \<^verbatim>\<open>if not can_process\<close>;
  they belong to that branch and are never executed, so a file of at most 200MB leaves
  the function after the size check.
\<close>

definition enh_process_single_item_change :: "world \<Rightarrow> string \<Rightarrow> string \<Rightarrow> state \<Rightarrow> item \<Rightarrow> state" where
  "enh_process_single_item_change w drive_id tenant_id s item =
     (let item_id = it_id item
      in if item_id = [] then add_log ItemMissingId s
         else if it_deleted item then remove_file_from_index w drive_id item_id (Some tenant_id) s
         else (case it_file item of
                 None \<Rightarrow> s
               | Some mime_type \<Rightarrow>
                   let file_name = get_or (it_name item) ''Unknown'';
                       file_size = get_or (it_size item) 0;
                       (should_process, why) = should_process_file file_name mime_type file_size;
                       s1 = add_log (FileDecision file_name should_process) s
                   in if \<not> should_process then s1
                      else if should_use_queue_processing file_size then
                        (case enqueue_large_file_processing w drive_id item_id file_name file_size
                                tenant_id s1 of
                           (success, s2) \<Rightarrow>
                             if success then s2 else add_log (FailedToEnqueueLargeFile file_name) s2)
                      else (case can_process_file_size file_size of
                              (can_process, method) \<Rightarrow>
                                if \<not> can_process then add_log (FileTooLarge file_name file_size) s1
                                else s1)))"

definition enh_process_drive_delta :: "world \<Rightarrow> string \<Rightarrow> string \<Rightarrow> state \<Rightarrow> state" where
  "enh_process_drive_delta w drive_id tenant_id s =
     (if \<not> w_headers_ok w then add_log ErrorProcessingDriveDelta s
      else (case w_delta w drive_id of
              None \<Rightarrow> add_log ErrorProcessingDriveDelta s
            | Some response \<Rightarrow>
                if status_code response = 200
                then (let changes = delta_value response;
                          s1 = foldl (enh_process_single_item_change w drive_id tenant_id) s changes;
                          next_link = odata_nextLink response
                      in if truthy next_link then add_log DeltaHasMorePages s1 else s1)
                else add_log (DeltaQueryFailed (status_code response)) s))"

subsection \<open>Notification router\<close>

definition enh_process_notification_sync :: "world \<Rightarrow> notification \<Rightarrow> state \<Rightarrow> state" where
  "enh_process_notification_sync w notification s =
     (let resource = n_resource notification;
          tenant_id = get_or (n_tenant_id notification) ''default''
      in if contains resource ''/drives/''
         then (let parts = split_on (CHR ''/'') resource
               in if length parts \<ge> 3 then enh_process_drive_delta w (parts ! 2) tenant_id s
                  else add_log (InvalidResourcePathFormat resource) s)
         else add_log (UnsupportedResourceType resource) s)"

text \<open>
  The loop of \<^verbatim>\<open>main\<close> over the notifications: each one is validated and, when valid,
  processed at once, before the next one is looked at. The result is the response of an
  early \<^verbatim>\<open>return\<close>, if there was one, and the state reached.
\<close>

fun enh_notification_loop :: "world \<Rightarrow> notification list \<Rightarrow> state \<Rightarrow> response option \<times> state" where
  "enh_notification_loop w [] s = (None, s)"
| "enh_notification_loop w (notification # rest) s =
     (let client_state = n_clientState notification;
          tenant_id = validate_client_state (WEBHOOK_CLIENT_STATE w) client_state
      in if tenant_id = None
         then (Some \<lparr>resp_status = 401, resp_body = PlainText ''Unauthorized'',
                     resp_content_type = ''text/plain''\<rparr>,
               add_log (InvalidClientState client_state) s)
         else enh_notification_loop w rest
                (enh_process_notification_sync w (notification\<lparr>n_tenant_id := tenant_id\<rparr>) s))"

definition enh_main :: "world \<Rightarrow> request \<Rightarrow> state \<Rightarrow> response \<times> state" where
  "enh_main w req s =
     (let validation_token = req_validationToken req
      in if truthy validation_token
         then (\<lparr>resp_status = 200, resp_body = PlainText (the validation_token),
                resp_content_type = ''text/plain''\<rparr>, s)
         else (case req_json req of
                 InvalidJson \<Rightarrow>
                   (\<lparr>resp_status = 400, resp_body = PlainText ''Invalid JSON'',
                     resp_content_type = ''text/plain''\<rparr>, add_log InvalidJsonInRequestBody s)
               | EmptyObject \<Rightarrow>
                   (\<lparr>resp_status = 400, resp_body = PlainText ''Empty body'',
                     resp_content_type = ''text/plain''\<rparr>, add_log EmptyRequestBody s)
               | FalsyNonObject \<Rightarrow>
                   (\<lparr>resp_status = 400, resp_body = PlainText ''Empty body'',
                     resp_content_type = ''text/plain''\<rparr>, add_log EmptyRequestBody s)
               | TruthyNonObject \<Rightarrow>
                   (\<lparr>resp_status = 500, resp_body = PlainText ''Internal error'',
                     resp_content_type = ''text/plain''\<rparr>, add_log ErrorProcessingWebhook s)
               | Object notifications \<Rightarrow>
                   if notifications = []
                   then (\<lparr>resp_status = 400, resp_body = PlainText ''No notifications'',
                          resp_content_type = ''text/plain''\<rparr>, add_log NoNotificationsInRequestBody s)
                   else (case enh_notification_loop w notifications s of
                           (Some early, s1) \<Rightarrow> (early, s1)
                         | (None, s1) \<Rightarrow>
                             (\<lparr>resp_status = 200,
                               resp_body = JsonObject [(''status'', JStr ''accepted''),
                                                       (''processed'', JInt (int (length notifications)))],
                               resp_content_type = ''application/json''\<rparr>, s1))))"

section \<open>Local ingestion script (\<^verbatim>\<open>ingest_local.py\<close>)\<close>

text \<open>\<^verbatim>\<open>os.path.basename(p)\<close> on a POSIX path.\<close>

definition basename :: "string \<Rightarrow> string" where
  "basename p = rev (takeWhile (\<lambda>c. c \<noteq> CHR ''/'') (rev p))"

text \<open>
  The loop of \<^verbatim>\<open>ingest_documents\<close> over the chunks of one file. The upload of a full
  batch of 100 is inside the \<^verbatim>\<open>try\<close> of the loop body: when it raises, the handler
  prints and the loop goes on with the batch as it is. \<open>chunk_count\<close> is the counter of
  the source; the identifier of a document is the one \<^verbatim>\<open>uuid.uuid4()\<close> gives at that
  count.
\<close>

fun ingest_chunks ::
  "world \<Rightarrow> string \<Rightarrow> (string \<times> nat) list \<Rightarrow> doc list \<Rightarrow> nat \<Rightarrow> state \<Rightarrow> doc list \<times> nat \<times> state" where
  "ingest_chunks w title [] docs chunk_count s = (docs, chunk_count, s)"
| "ingest_chunks w title ((snippet, chunk_idx) # rest) docs chunk_count s =
     (case embed_text w snippet s of
        (embedding, s1) \<Rightarrow>
          let docs1 = docs @
                [\<lparr>d_id = w_uuid4 w chunk_count,
                  d_title = title,
                  d_content = snippet,
                  d_chunk = chunk_idx,
                  d_vector = embedding,
                  d_source_drive_id = None,
                  d_source_item_id = None,
                  d_tenant_id = None,
                  d_last_modified = None,
                  d_file_size_category = None\<rparr>];
              chunk_count1 = chunk_count + 1
          in if length docs1 \<ge> 100 then
               (let s2 = s1\<lparr>index_calls := index_calls s1 @ [Upload docs1]\<rparr>
                in if w_upload_raises w docs1
                   then ingest_chunks w title rest docs1 chunk_count1
                          (add_log (ErrorProcessingChunk title) s2)
                   else ingest_chunks w title rest [] chunk_count1
                          (add_log (UploadedLocalBatch (length docs1))
                             (s2\<lparr>index := upload_documents docs1 (index s2)\<rparr>)))
             else ingest_chunks w title rest docs1 chunk_count1 s1)"

text \<open>The loop over the paths of the folder.\<close>

fun ingest_files ::
  "world \<Rightarrow> string list \<Rightarrow> doc list \<Rightarrow> nat \<Rightarrow> nat \<Rightarrow> state \<Rightarrow> doc list \<times> nat \<times> nat \<times> state" where
  "ingest_files w [] docs file_count chunk_count s = (docs, file_count, chunk_count, s)"
| "ingest_files w (file_path # rest) docs file_count chunk_count s =
     (if w_isfile w file_path then
        (let content = extract_text w file_path
         in if py_strip content = []
            then ingest_files w rest docs file_count chunk_count
                   (add_log (NoTextExtracted file_path) s)
            else (case ingest_chunks w (basename file_path) (chunk_text content) docs chunk_count s of
                    (docs1, chunk_count1, s1) \<Rightarrow>
                      ingest_files w rest docs1 (file_count + 1) chunk_count1 s1))
      else ingest_files w rest docs file_count chunk_count s)"

text \<open>
  \<^verbatim>\<open>ingest_documents\<close>: the upload of the remaining documents is outside every
  \<^verbatim>\<open>try\<close>; the Boolean of the result is \<open>False\<close> when its exception leaves the function.
\<close>

definition ingest_documents :: "world \<Rightarrow> string \<Rightarrow> state \<Rightarrow> bool \<times> state" where
  "ingest_documents w folder_path s =
     (if \<not> w_path_exists w folder_path then (True, add_log (CreatingFolder folder_path) s)
      else (case ingest_files w (w_glob w folder_path) [] 0 0 s of
              (docs, file_count, chunk_count, s1) \<Rightarrow>
                if docs \<noteq> [] then
                  (let s2 = s1\<lparr>index_calls := index_calls s1 @ [Upload docs]\<rparr>
                   in if w_upload_raises w docs then (False, s2)
                      else (True, add_log (UploadedFinalBatch (length docs))
                                    (s2\<lparr>index := upload_documents docs (index s2)\<rparr>)))
                else (True, s1)))"

text \<open>The documents handed to \<^verbatim>\<open>upload_documents\<close> so far, call by call.\<close>

definition uploaded_docs :: "state \<Rightarrow> doc list" where
  "uploaded_docs s = concat (map (\<lambda>c. case c of Upload ds \<Rightarrow> ds | Delete ids \<Rightarrow> []) (index_calls s))"

section \<open>Concrete worlds and inputs\<close>

text \<open>
  A world in which every external call fails or answers nothing, and the state of a fresh
  process; the scenarios below change the fields they need.
\<close>

definition quiet_world :: world where
  "quiet_world =
     \<lparr>WEBHOOK_CLIENT_STATE = ''docusense-webhook-secret'',
      w_headers_ok = True,
      w_delta = (\<lambda>drive_id. None),
      w_delta_next = (\<lambda>link. None),
      w_file_info = (\<lambda>drive_id item_id. None),
      w_download = (\<lambda>drive_id item_id. FailedBeforeCreate),
      w_stream_download = (\<lambda>drive_id item_id file_name. FailedBeforeCreate),
      w_file_text = (\<lambda>path. []),
      w_embedding = (\<lambda>text. None),
      w_search_raises = False,
      w_delete_raises = False,
      w_upload_raises = (\<lambda>docs. False),
      w_queue_send_raises = False,
      w_utcnow = ''2025-01-03T00:00:00'',
      w_tmpdir = ''/tmp'',
      w_path_exists = (\<lambda>path. False),
      w_glob = (\<lambda>folder_path. []),
      w_isfile = (\<lambda>path. False),
      w_uuid4 = (\<lambda>n. ''0b1e6c1e-7f2a-4d3b-9c5e-00000000000'' @ str_nat n)\<rparr>"

definition empty_state :: state where
  "empty_state =
     \<lparr>index = [], index_calls = [], processed_files_cache = Map.empty, tmp_files = {},
      queue = [], logged = []\<rparr>"

text \<open>A subscription handshake: the query carries \<^verbatim>\<open>validationToken=abc\<close>.\<close>

definition handshake_request :: request where
  "handshake_request = \<lparr>req_validationToken = Some ''abc'', req_json = InvalidJson\<rparr>"

text \<open>A text file \<^verbatim>\<open>notes.txt\<close>, item \<^verbatim>\<open>item1\<close> of drive \<^verbatim>\<open>drive1\<close>, and its change records.\<close>

definition notes_info :: file_info where
  "notes_info = \<lparr>fi_name = Some ''notes.txt'', fi_lastModifiedDateTime = Some ''2025-01-02T10:00:00Z''\<rparr>"

definition notes_upsert :: item where
  "notes_upsert =
     \<lparr>it_id = ''item1'', it_deleted = False, it_file = Some (Some ''text/plain''),
      it_name = Some ''notes.txt'', it_size = Some 12,
      it_lastModifiedDateTime = Some ''2025-01-02T10:00:00Z''\<rparr>"

definition notes_deletion :: item where
  "notes_deletion =
     \<lparr>it_id = ''item1'', it_deleted = True, it_file = None,
      it_name = None, it_size = None, it_lastModifiedDateTime = None\<rparr>"


text \<open>The file's metadata can be read, but the download fails before any file is created.\<close>

definition download_fails_world :: world where
  "download_fails_world = quiet_world\<lparr>w_file_info := (\<lambda>drive_id item_id. Some notes_info)\<rparr>"

text \<open>
  The local folder \<^verbatim>\<open>sample_docs\<close> holds the one file \<^verbatim>\<open>notes.txt\<close> with the text
  \<^verbatim>\<open>hello world\<close>; the embedding service is down.
\<close>

definition local_folder_world :: world where
  "local_folder_world =
     quiet_world\<lparr>w_path_exists := (\<lambda>path. True),
                 w_glob := (\<lambda>folder_path. [''sample_docs/notes.txt'']),
                 w_isfile := (\<lambda>path. True),
                 w_file_text := (\<lambda>path. ''hello world'')\<rparr>"

text \<open>
  \<^verbatim>\<open>mkstemp\<close> creates \<^verbatim>\<open>/tmp/tmpq1w2e3r4\<close> and the connection drops while the content is
  written to it.
\<close>

definition download_breaks_world :: world where
  "download_breaks_world =
     quiet_world\<lparr>w_file_info := (\<lambda>drive_id item_id. Some notes_info),
                 w_download := (\<lambda>drive_id item_id. FailedAfterCreate [16, 27, 22, 28, 4, 29, 17, 30])\<rparr>"

text \<open>
  Two files the classifier accepts, as the delta response reports them: a PDF of exactly
  50MB and one of 50MB and one byte.
\<close>

definition report_50mb :: item where
  "report_50mb =
     \<lparr>it_id = ''item2'', it_deleted = False, it_file = Some (Some ''application/pdf''),
      it_name = Some ''report.pdf'', it_size = Some (50 * 1024 * 1024),
      it_lastModifiedDateTime = Some ''2025-01-02T10:00:00Z''\<rparr>"

definition report_50mb_plus :: item where
  "report_50mb_plus = report_50mb\<lparr>it_size := Some (50 * 1024 * 1024 + 1)\<rparr>"

text \<open>The same file with 200MB and one byte.\<close>

definition report_200mb_plus :: item where
  "report_200mb_plus = report_50mb\<lparr>it_size := Some (200 * 1024 * 1024 + 1)\<rparr>"

text \<open>One chunk of \<^verbatim>\<open>notes.txt\<close> in the index, as the two handlers write it.\<close>

definition notes_doc :: doc where
  "notes_doc =
     \<lparr>d_id = ''default_drive1_item1_0'', d_title = ''notes.txt'', d_content = ''hello world'',
      d_chunk = 0, d_vector = [], d_source_drive_id = Some ''drive1'',
      d_source_item_id = Some ''item1'',
      d_tenant_id = Some ''default'', d_last_modified = Some ''2025-01-01T00:00:00'',
      d_file_size_category = None\<rparr>"

definition indexed_state :: state where
  "indexed_state = empty_state\<lparr>index := [notes_doc]\<rparr>"

text \<open>
  A delta response of two pages: the first is empty and links to the second, which
  reports that \<^verbatim>\<open>item1\<close> was deleted.
\<close>

definition two_page_world :: world where
  "two_page_world =
     quiet_world\<lparr>w_delta := (\<lambda>drive_id. Some \<lparr>status_code = 200, delta_value = [],
                                               odata_nextLink = Some ''https://graph/page2''\<rparr>),
                 w_delta_next := (\<lambda>link. Some \<lparr>status_code = 200, delta_value = [notes_deletion],
                                                odata_nextLink = None\<rparr>)\<rparr>"

text \<open>
  A delta response of one page that reports the deletion, and a batch of two
  notifications for that drive: the first with the shared secret, the second with a
  wrong client state.
\<close>

definition deletion_world :: world where
  "deletion_world =
     quiet_world\<lparr>w_delta := (\<lambda>drive_id. Some \<lparr>status_code = 200, delta_value = [notes_deletion],
                                               odata_nextLink = None\<rparr>)\<rparr>"

definition mixed_batch :: request where
  "mixed_batch =
     \<lparr>req_validationToken = None,
      req_json = Object
        [\<lparr>n_clientState = Some ''docusense-webhook-secret'', n_resource = ''/drives/drive1/root'',
          n_changeType = ''updated'', n_tenant_id = None\<rparr>,
         \<lparr>n_clientState = Some ''forged'', n_resource = ''/drives/drive1/root'',
          n_changeType = ''updated'', n_tenant_id = None\<rparr>]\<rparr>"

chapter \<open>Properties\<close>

section \<open>Chunker\<close>

lemma py_range_step: "0 < step \<Longrightarrow> i < n \<Longrightarrow> py_range i n step = i # py_range (i + step) n step"
  by (subst py_range.simps) simp

lemma py_range_stop: "\<not> (0 < step \<and> i < n) \<Longrightarrow> py_range i n step = []"
  by (subst py_range.simps) simp

lemma split_acc_words:
  "(\<And>c. c \<in> set acc \<Longrightarrow> \<not> is_space c) \<Longrightarrow> w \<in> set (split_acc acc s) \<Longrightarrow> word_ok w"
proof (induction s arbitrary: acc)
  case Nil
  then show ?case by (auto simp: word_ok_def split: if_splits)
next
  case (Cons a s)
  show ?case
  proof (cases "is_space a")
    case True
    then have "w \<in> set (if acc = [] then [] else [acc]) \<or> w \<in> set (split_acc [] s)"
      using Cons.prems(2) by auto
    then show ?thesis
    proof
      assume "w \<in> set (if acc = [] then [] else [acc])"
      then show ?thesis using Cons.prems(1) by (auto simp: word_ok_def split: if_splits)
    next
      assume "w \<in> set (split_acc [] s)"
      then show ?thesis using Cons.IH [of "[]"] by simp
    qed
  next
    case False
    then have "w \<in> set (split_acc (acc @ [a]) s)" using Cons.prems(2) by simp
    moreover have "\<And>c. c \<in> set (acc @ [a]) \<Longrightarrow> \<not> is_space c"
      using False Cons.prems(1) by auto
    ultimately show ?thesis using Cons.IH [of "acc @ [a]"] by blast
  qed
qed

lemma py_split_words: "\<forall>w \<in> set (py_split s). word_ok w"
  unfolding py_split_def using split_acc_words [of "[]" _ s] by auto

lemma split_acc_append:
  "(\<forall>c \<in> set w. \<not> is_space c) \<Longrightarrow> split_acc acc (w @ rest) = split_acc (acc @ w) rest"
  by (induction w arbitrary: acc) auto

lemma space_is_space: "is_space (CHR '' '')"
  by (simp add: is_space_def)

lemma split_acc_join:
  "\<forall>w \<in> set ws. word_ok w \<Longrightarrow> word_ok a \<Longrightarrow> split_acc [] (join_sp (a # ws)) = a # ws"
proof (induction ws arbitrary: a)
  case Nil
  then show ?case
    using split_acc_append [of a "[]" "[]"] by (simp add: word_ok_def)
next
  case (Cons v ws)
  have "split_acc [] (join_sp (a # v # ws)) = split_acc a ('' '' @ join_sp (v # ws))"
    using Cons.prems(2) split_acc_append [of a "[]" "'' '' @ join_sp (v # ws)"]
    by (simp add: word_ok_def)
  also have "\<dots> = a # split_acc [] (join_sp (v # ws))"
    using Cons.prems(2) by (simp add: space_is_space word_ok_def)
  also have "\<dots> = a # v # ws"
    using Cons by simp
  finally show ?case .
qed

lemma py_split_join: "\<forall>w \<in> set ws. word_ok w \<Longrightarrow> py_split (join_sp ws) = ws"
  by (cases ws) (simp_all add: py_split_def split_acc_join)

lemma join_sp_hd: "ws \<noteq> [] \<Longrightarrow> hd ws \<noteq> [] \<Longrightarrow> join_sp ws \<noteq> [] \<and> hd (join_sp ws) = hd (hd ws)"
  by (cases ws rule: join_sp.cases) auto

lemma py_strip_nonempty: "s \<noteq> [] \<Longrightarrow> \<not> is_space (hd s) \<Longrightarrow> py_strip s \<noteq> []"
proof -
  assume a: "s \<noteq> []" "\<not> is_space (hd s)"
  then have "hd s \<in> set (rev s)" by simp
  then have "dropWhile is_space (rev s) \<noteq> []" using a(2) by (metis dropWhile_eq_Nil_conv)
  moreover have "hd s \<in> set (dropWhile is_space (rev s))"
  proof -
    have "last (rev s) = hd s" using a(1) by (simp add: last_rev)
    moreover have "rev s \<noteq> []" using a(1) by simp
    ultimately show ?thesis using a(2)
      by (metis \<open>dropWhile is_space (rev s) \<noteq> []\<close> last_in_set dropWhile_last)
  qed
  then have "hd s \<in> set (rev (dropWhile is_space (rev s)))" by simp
  then show ?thesis using a(2) unfolding py_strip_def by (metis dropWhile_eq_Nil_conv)
qed

lemma strip_join_nonempty:
  "ws \<noteq> [] \<Longrightarrow> \<forall>w \<in> set ws. word_ok w \<Longrightarrow> py_strip (join_sp ws) \<noteq> []"
proof -
  assume a: "ws \<noteq> []" "\<forall>w \<in> set ws. word_ok w"
  then have h: "word_ok (hd ws)" by simp
  then have "join_sp ws \<noteq> [] \<and> hd (join_sp ws) = hd (hd ws)"
    using a(1) join_sp_hd by (simp add: word_ok_def)
  moreover have "\<not> is_space (hd (hd ws))" using h by (simp add: word_ok_def)
  ultimately show ?thesis using py_strip_nonempty by metis
qed

lemma join_sp_append:
  "a \<noteq> [] \<Longrightarrow> b \<noteq> [] \<Longrightarrow> join_sp (a @ b) = join_sp a @ '' '' @ join_sp b"
proof (induction a rule: join_sp.induct)
  case 1
  then show ?case by simp
next
  case (2 w)
  then show ?case by (cases b) simp_all
next
  case (3 w v ws)
  then show ?case by simp
qed

lemma join_sp_concat:
  "\<forall>g \<in> set gs. g \<noteq> [] \<Longrightarrow> join_sp (map join_sp gs) = join_sp (concat gs)"
proof (induction gs)
  case Nil
  then show ?case by simp
next
  case (Cons g gs)
  show ?case
  proof (cases gs)
    case Nil
    then show ?thesis by simp
  next
    case (Cons h hs)
    then have ne: "concat gs \<noteq> []" using Cons.prems by auto
    have "join_sp (map join_sp (g # gs)) = join_sp g @ '' '' @ join_sp (map join_sp gs)"
      using Cons by simp
    also have "\<dots> = join_sp g @ '' '' @ join_sp (concat gs)"
      using Cons.IH Cons.prems by simp
    also have "\<dots> = join_sp (g @ concat gs)"
      using join_sp_append [of g "concat gs"] ne Cons.prems by simp
    finally show ?thesis by simp
  qed
qed

lemma py_range_concat:
  "0 < step \<Longrightarrow>
   concat (map (\<lambda>j. slice ws j (j + step)) (py_range i (length ws) step)) = drop i ws"
proof (induction i "length ws" step rule: py_range.induct)
  case (1 i step)
  show ?case
  proof (cases "i < length ws")
    case True
    have "drop i ws = take step (drop i ws) @ drop (i + step) ws"
      by (metis append_take_drop_id drop_drop add.commute)
    then show ?thesis using 1 True by (simp add: slice_def py_range_step)
  next
    case False
    then show ?thesis by (simp add: py_range_stop)
  qed
qed

lemma py_range_lt: "j \<in> set (py_range i n step) \<Longrightarrow> j < n"
proof (induction i n step rule: py_range.induct)
  case (1 i n step)
  then show ?case by (cases "0 < step \<and> i < n") (auto simp: py_range_step py_range_stop)
qed

lemma py_range_div:
  "0 < step \<Longrightarrow>
   map (\<lambda>j. j div step) (py_range (k * step) n step) =
     [k ..< k + length (py_range (k * step) n step)]"
proof (induction "k * step" n step arbitrary: k rule: py_range.induct)
  case (1 n step)
  show ?case
  proof (cases "k * step < n")
    case True
    have "map (\<lambda>j. j div step) (py_range (Suc k * step) n step) =
          [Suc k ..< Suc k + length (py_range (Suc k * step) n step)]"
      using 1(1) [of "Suc k"] True 1(2) by (simp add: add.commute)
    then show ?thesis using True 1(2)
      by (simp add: py_range_step [of step "k * step" n] add.commute upt_rec)
  next
    case False
    then show ?thesis by (simp add: py_range_stop)
  qed
qed


lemma slice_words_ok:
  "\<forall>w \<in> set ws. word_ok w \<Longrightarrow> \<forall>w \<in> set (slice ws i j). word_ok w"
  unfolding slice_def by (meson in_set_dropD in_set_takeD)

lemma slice_nonempty: "0 < step \<Longrightarrow> i < length ws \<Longrightarrow> slice ws i (i + step) \<noteq> []"
  by (simp add: slice_def)

lemma chunk_text_eq:
  "chunk_text text =
     map (\<lambda>i. (join_sp (slice (py_split text) i (i + chunk_size)), i div chunk_size))
         (py_range 0 (length (py_split text)) chunk_size)"
proof -
  have pos: "0 < chunk_size" by (simp add: chunk_size_def)
  have "py_strip (join_sp (slice (py_split text) i (i + chunk_size))) \<noteq> []"
    if "i \<in> set (py_range 0 (length (py_split text)) chunk_size)" for i
    using that py_range_lt [of i 0 "length (py_split text)" chunk_size]
      slice_nonempty [OF pos, of i "py_split text"]
      slice_words_ok [OF py_split_words, of "text" i "i + chunk_size"]
      strip_join_nonempty by blast
  then have "concat (map (\<lambda>i. let chunk = join_sp (slice (py_split text) i (i + chunk_size))
                         in if py_strip chunk \<noteq> [] then [(chunk, i div chunk_size)] else [])
                  (py_range 0 (length (py_split text)) chunk_size))
      = concat (map (\<lambda>i. [(join_sp (slice (py_split text) i (i + chunk_size)), i div chunk_size)])
                  (py_range 0 (length (py_split text)) chunk_size))"
    by (simp add: Let_def cong: map_cong)
  also have "\<dots> = map (\<lambda>i. (join_sp (slice (py_split text) i (i + chunk_size)), i div chunk_size))
         (py_range 0 (length (py_split text)) chunk_size)"
    by (induction "py_range 0 (length (py_split text)) chunk_size") simp_all
  finally show ?thesis by (simp add: chunk_text_def Let_def)
qed

text \<open>
  Claim C6. For every input text: the chunks, joined by single spaces in the order they are
  yielded, are the single-space join of the whitespace-split words of the input; every
  chunk has at most 300 words; and the indices yielded are exactly 0, 1, 2, ... up to the
  number of chunks, without a gap.
\<close>

theorem chunk_text_roundtrip:
  "join_sp (map fst (chunk_text text)) = join_sp (py_split text)
   \<and> (\<forall>c \<in> set (chunk_text text). length (py_split (fst c)) \<le> 300)
   \<and> map snd (chunk_text text) = [0 ..< length (chunk_text text)]"
proof (intro conjI)
  let ?ws = "py_split text"
  let ?r = "py_range 0 (length ?ws) chunk_size"
  have pos: "0 < chunk_size" by (simp add: chunk_size_def)
  have ne: "\<forall>g \<in> set (map (\<lambda>i. slice ?ws i (i + chunk_size)) ?r). g \<noteq> []"
    using py_range_lt [of _ 0 "length ?ws" chunk_size] slice_nonempty [OF pos, of _ ?ws] by auto
  have "map fst (chunk_text text) = map join_sp (map (\<lambda>i. slice ?ws i (i + chunk_size)) ?r)"
    by (simp add: chunk_text_eq comp_def)
  then have "join_sp (map fst (chunk_text text))
      = join_sp (concat (map (\<lambda>i. slice ?ws i (i + chunk_size)) ?r))"
    using join_sp_concat [OF ne] by simp
  also have "\<dots> = join_sp ?ws"
    using py_range_concat [OF pos, of ?ws 0] by simp
  finally show "join_sp (map fst (chunk_text text)) = join_sp (py_split text)" .
next
  show "\<forall>c \<in> set (chunk_text text). length (py_split (fst c)) \<le> 300"
  proof
    fix c assume "c \<in> set (chunk_text text)"
    then obtain i where c: "fst c = join_sp (slice (py_split text) i (i + chunk_size))"
      by (auto simp: chunk_text_eq)
    have "py_split (fst c) = slice (py_split text) i (i + chunk_size)"
      unfolding c using py_split_join slice_words_ok [OF py_split_words] by blast
    then show "length (py_split (fst c)) \<le> 300"
      by (simp add: slice_def chunk_size_def)
  qed
next
  have pos: "0 < chunk_size" by (simp add: chunk_size_def)
  have "map snd (chunk_text text)
      = map (\<lambda>j. j div chunk_size) (py_range (0 * chunk_size) (length (py_split text)) chunk_size)"
    by (simp add: chunk_text_eq comp_def)
  also have "\<dots> = [0 ..< 0 + length (py_range (0 * chunk_size) (length (py_split text)) chunk_size)]"
    by (rule py_range_div [OF pos])
  also have "\<dots> = [0 ..< length (chunk_text text)]"
    by (simp add: chunk_text_eq)
  finally show "map snd (chunk_text text) = [0 ..< length (chunk_text text)]" .
qed

theorem chunk_text_roundtrip_witness:
  "(''hello world'', 0) \<in> set (chunk_text ''hello  world'') \<and> length (py_split ''hello world'') \<le> 300"
  using chunk_text_roundtrip [of "''hello  world''"]
  by (simp add: chunk_text_def py_split_def is_space_def slice_def chunk_size_def py_strip_def
      py_range_step py_range_stop)

section \<open>Evaluation of the concrete inputs\<close>

lemma ext_notes: "lower (splitext_ext ''notes.txt'') = ''.txt''"
  by (simp add: splitext_ext_def lower_def lower_char_def Let_def)

lemma ext_local_notes: "lower (splitext_ext ''sample_docs/notes.txt'') = ''.txt''"
  by (simp add: splitext_ext_def lower_def lower_char_def Let_def)

lemma basename_local_notes: "basename ''sample_docs/notes.txt'' = ''notes.txt''"
  by (simp add: basename_def)

lemma mkstemp_q1w2e3r4:
  "w_tmpdir w = ''/tmp'' \<Longrightarrow> mkstemp w [16, 27, 22, 28, 4, 29, 17, 30] [] = ''/tmp/tmpq1w2e3r4''"
  by (simp add: mkstemp_def random_characters_def)


lemma should_process_report:
  "should_process_file ''report.pdf'' (Some ''application/pdf'') file_size = (True, SupportedMimeType)"
  by (simp add: should_process_file_def SKIP_EXTENSIONS_def SUPPORTED_MIME_TYPES_def truthy_def
      lower_def lower_char_def endswith_def Let_def)

lemma chunk_hello: "chunk_text ''hello world'' = [(''hello world'', 0)]"
  by (simp add: chunk_text_def py_split_def is_space_def slice_def chunk_size_def py_strip_def
      py_range_step py_range_stop)

lemma strip_hello: "py_strip ''hello world'' = ''hello world''"
  by (simp add: py_strip_def is_space_def)

lemma str_nat_0: "str_nat 0 = ''0''"
  by code_simp

lemma drive_of_resource:
  "contains ''/drives/drive1/root'' ''/drives/'' \<and> split_on (CHR ''/'') ''/drives/drive1/root'' = ['''', ''drives'', ''drive1'', ''root'']"
  by (simp add: contains.simps split_on.simps startswith_def)

section \<open>Client-state validation\<close>

lemma tenant_form_iff:
  "(startswith cs ''docusense-'' \<and> endswith cs ''-webhook'' \<and> drop 10 (take (length cs - 8) cs) = t \<and> t \<noteq> [])
   \<longleftrightarrow> (t \<noteq> [] \<and> cs = ''docusense-'' @ t @ ''-webhook'')"
proof
  assume a: "startswith cs ''docusense-'' \<and> endswith cs ''-webhook'' \<and> drop 10 (take (length cs - 8) cs) = t \<and> t \<noteq> []"
  then have t: "t = drop 10 (take (length cs - 8) cs)" and ne: "t \<noteq> []" by auto
  from a have p: "take 10 cs = ''docusense-''" by (simp add: startswith_def eval_nat_numeral)
  from a have q: "drop (length cs - 8) cs = ''-webhook''" by (simp add: endswith_def eval_nat_numeral)
  have len: "10 < length cs - 8" using t ne by (cases "10 < length cs - 8") auto
  have "cs = take (length cs - 8) cs @ drop (length cs - 8) cs" by simp
  also have "take (length cs - 8) cs = take 10 (take (length cs - 8) cs) @ drop 10 (take (length cs - 8) cs)"
    by (simp only: append_take_drop_id)
  also have "take 10 (take (length cs - 8) cs) = take 10 cs" using len by (simp add: min_def)
  finally have "cs = (take 10 cs @ t) @ drop (length cs - 8) cs" using t by simp
  then show "t \<noteq> [] \<and> cs = ''docusense-'' @ t @ ''-webhook''" using p q ne by simp
next
  assume "t \<noteq> [] \<and> cs = ''docusense-'' @ t @ ''-webhook''"
  then show "startswith cs ''docusense-'' \<and> endswith cs ''-webhook'' \<and> drop 10 (take (length cs - 8) cs) = t \<and> t \<noteq> []"
    by (simp add: startswith_def endswith_def)
qed

text \<open>
  Claim C10, as stated, says that the tenant id \<^verbatim>\<open>default\<close> is returned exactly when the
  input equals the configured shared secret. With the default secret the token
  \<^verbatim>\<open>docusense-default-webhook\<close>, which is not the secret, is accepted with tenant id
  \<^verbatim>\<open>default\<close> as well.
\<close>

theorem validate_client_state_default_counterexample:
  "validate_client_state ''docusense-webhook-secret'' (Some ''docusense-default-webhook'') = Some ''default''
   \<and> ''docusense-default-webhook'' \<noteq> ''docusense-webhook-secret''"
  by (simp add: validate_client_state_def truthy_def startswith_def endswith_def)

text \<open>
  Claim C10, amended. For every secret and every input, validation never returns an empty
  tenant id, and it returns tenant id \<open>t\<close> exactly when the input is a non-empty string
  that either equals the secret, with \<open>t\<close> being \<^verbatim>\<open>default\<close>, or differs from the secret
  and is \<^verbatim>\<open>docusense-\<close> followed by a non-empty \<open>t\<close> followed by \<^verbatim>\<open>-webhook\<close>; every other
  input is rejected. The malformed tokens \<^verbatim>\<open>docusense--webhook\<close> and
  \<^verbatim>\<open>docusense-webhook\<close> are rejected unless one of them is the configured secret.
\<close>

theorem validate_client_state_cases:
  "validate_client_state secret client_state \<noteq> Some []
   \<and> (validate_client_state secret client_state = Some t \<longleftrightarrow>
        (\<exists>cs. client_state = Some cs \<and> cs \<noteq> [] \<and>
              ((cs = secret \<and> t = ''default'') \<or>
               (cs \<noteq> secret \<and> t \<noteq> [] \<and> cs = ''docusense-'' @ t @ ''-webhook''))))
   \<and> (secret \<noteq> ''docusense--webhook'' \<longrightarrow>
        validate_client_state secret (Some ''docusense--webhook'') = None)
   \<and> (secret \<noteq> ''docusense-webhook'' \<longrightarrow>
        validate_client_state secret (Some ''docusense-webhook'') = None)"
proof (intro conjI)
  show "validate_client_state secret client_state \<noteq> Some []"
    by (simp add: validate_client_state_def Let_def)
next
  show "validate_client_state secret client_state = Some t \<longleftrightarrow>
        (\<exists>cs. client_state = Some cs \<and> cs \<noteq> [] \<and>
              ((cs = secret \<and> t = ''default'') \<or>
               (cs \<noteq> secret \<and> t \<noteq> [] \<and> cs = ''docusense-'' @ t @ ''-webhook'')))"
  proof (cases client_state)
    case None
    then show ?thesis by (simp add: validate_client_state_def truthy_def)
  next
    case (Some cs)
    show ?thesis
    proof (cases "cs = [] \<or> cs = secret")
      case True
      then show ?thesis using Some by (auto simp: validate_client_state_def truthy_def Let_def)
    next
      case False
      then have "validate_client_state secret client_state = Some t \<longleftrightarrow>
          (startswith cs ''docusense-'' \<and> endswith cs ''-webhook'' \<and> drop 10 (take (length cs - 8) cs) = t \<and> t \<noteq> [])"
        using Some by (auto simp: validate_client_state_def truthy_def Let_def)
      then show ?thesis using False Some tenant_form_iff [of cs t] by auto
    qed
  qed
next
  show "secret \<noteq> ''docusense--webhook'' \<longrightarrow>
        validate_client_state secret (Some ''docusense--webhook'') = None"
    by (simp add: validate_client_state_def truthy_def startswith_def endswith_def)
next
  show "secret \<noteq> ''docusense-webhook'' \<longrightarrow>
        validate_client_state secret (Some ''docusense-webhook'') = None"
    by (simp add: validate_client_state_def truthy_def startswith_def endswith_def)
qed

theorem validate_client_state_cases_witness:
  "validate_client_state ''docusense-webhook-secret'' (Some ''docusense-acme-webhook'') = Some ''acme''
   \<and> validate_client_state ''docusense-webhook-secret'' (Some ''docusense-webhook-secret'') = Some ''default''
   \<and> validate_client_state ''docusense-webhook-secret'' (Some ''docusense--webhook'') = None
   \<and> validate_client_state ''docusense-webhook-secret'' (Some ''docusense-webhook'') = None"
  using validate_client_state_cases [of "''docusense-webhook-secret''" "Some ''docusense-acme-webhook''" "''acme''"]
    validate_client_state_cases [of "''docusense-webhook-secret''" "Some ''docusense-webhook-secret''" "''default''"]
  by simp

section \<open>Size tiers and the enhanced orchestrator\<close>

text \<open>
  The labels and the queue: 50MB is \<^verbatim>\<open>standard\<close>, 50MB + 1 to 200MB is \<^verbatim>\<open>streaming\<close>,
  200MB + 1 to 1GB is sent to the queue, and above 1GB the queue function refuses the file
  and logs that it exceeds the maximum size.
\<close>

lemma size_tier_labels:
  "can_process_file_size (50 * 1024 * 1024) = (True, ''standard'')
   \<and> \<not> should_use_queue_processing (50 * 1024 * 1024)
   \<and> ingest_file_with_size_handling w drive_id item_id file_name (50 * 1024 * 1024) tenant_id s
       = ingest_single_file_standard drive_id item_id file_name tenant_id s
   \<and> (50 * 1024 * 1024 < n \<and> n \<le> 200 * 1024 * 1024 \<longrightarrow>
         can_process_file_size n = (True, ''streaming'')
         \<and> \<not> should_use_queue_processing n
         \<and> ingest_file_with_size_handling w drive_id item_id file_name n tenant_id s
             = process_large_file w drive_id item_id file_name n tenant_id s)
   \<and> (200 * 1024 * 1024 < n \<and> n \<le> 1024 * 1024 * 1024 \<longrightarrow>
         should_use_queue_processing n
         \<and> can_process_file_size n = (False, ''too_large'')
         \<and> (\<not> w_queue_send_raises w \<longrightarrow>
               enqueue_large_file_processing w drive_id item_id file_name n tenant_id s
                 = (True, add_log (EnqueuedLargeFile file_name n)
                            (s\<lparr>queue := queue s @
                                 [\<lparr>q_drive_id = drive_id, q_item_id = item_id, q_file_name = file_name,
                                   q_file_size = n, q_tenant_id = tenant_id, q_queued_at = w_utcnow w,
                                   q_processing_type = ''large_file''\<rparr>]\<rparr>))))
   \<and> (1024 * 1024 * 1024 < n \<longrightarrow>
         should_use_queue_processing n
         \<and> can_process_file_size n = (False, ''too_large'')
         \<and> enqueue_large_file_processing w drive_id item_id file_name n tenant_id s
             = (False, add_log (ExceedsMaximumSizeLimit file_name n) s))"
  by (simp add: can_process_file_size_def should_use_queue_processing_def
      ingest_file_with_size_handling_def enqueue_large_file_processing_def
      MAX_STANDARD_FILE_SIZE_def MAX_LARGE_FILE_SIZE_def MAX_QUEUE_FILE_SIZE_def add_log_def Let_def)

text \<open>
  Whatever the world answers, an upsert record leaves the index, the calls to it, the
  cache and the temporary files as they were: in \<^verbatim>\<open>process_single_item_change\<close>
  everything after the size check sits under a \<^verbatim>\<open>return\<close>.
\<close>

lemma enh_upsert_inert:
  "\<not> it_deleted item \<Longrightarrow>
   index (enh_process_single_item_change w drive_id tenant_id s item) = index s
   \<and> index_calls (enh_process_single_item_change w drive_id tenant_id s item) = index_calls s
   \<and> processed_files_cache (enh_process_single_item_change w drive_id tenant_id s item)
       = processed_files_cache s
   \<and> tmp_files (enh_process_single_item_change w drive_id tenant_id s item) = tmp_files s"
  by (simp add: enh_process_single_item_change_def enqueue_large_file_processing_def add_log_def
      Let_def split: option.splits prod.splits)

text \<open>
  Claim C7 on the enhanced handler. The classifier accepts \<^verbatim>\<open>report.pdf\<close> and the size
  check labels it \<^verbatim>\<open>standard\<close> at exactly 50MB and \<^verbatim>\<open>streaming\<close> at 50MB and one byte,
  but in every world and every state \<^verbatim>\<open>process_single_item_change\<close> then only logs the
  decision of the classifier: the file is neither downloaded nor indexed. At 200MB and
  one byte the same function does put the file on the queue.
\<close>

theorem enh_small_files_never_processed:
  "should_process_file ''report.pdf'' (Some ''application/pdf'') (50 * 1024 * 1024)
     = (True, SupportedMimeType)
   \<and> can_process_file_size (50 * 1024 * 1024) = (True, ''standard'')
   \<and> enh_process_single_item_change w ''drive1'' ''default'' s report_50mb
       = add_log (FileDecision ''report.pdf'' True) s
   \<and> can_process_file_size (50 * 1024 * 1024 + 1) = (True, ''streaming'')
   \<and> enh_process_single_item_change w ''drive1'' ''default'' s report_50mb_plus
       = add_log (FileDecision ''report.pdf'' True) s
   \<and> queue (enh_process_single_item_change quiet_world ''drive1'' ''default'' empty_state report_200mb_plus)
       = [\<lparr>q_drive_id = ''drive1'', q_item_id = ''item2'', q_file_name = ''report.pdf'',
           q_file_size = 200 * 1024 * 1024 + 1, q_tenant_id = ''default'',
           q_queued_at = ''2025-01-03T00:00:00'', q_processing_type = ''large_file''\<rparr>]"
  by (simp add: enh_process_single_item_change_def report_50mb_def report_50mb_plus_def
      report_200mb_plus_def should_process_report should_use_queue_processing_def
      can_process_file_size_def enqueue_large_file_processing_def MAX_QUEUE_FILE_SIZE_def
      MAX_STANDARD_FILE_SIZE_def MAX_LARGE_FILE_SIZE_def quiet_world_def empty_state_def
      add_log_def get_or_def Let_def)

section \<open>Idempotency tracker\<close>


text \<open>
  The webhook handler does consult and update its cache: the check answers true exactly
  when the given value equals the recorded one, a record with the recorded value leaves
  the state unchanged, and one with any other value is handed to ingestion and recorded.
\<close>

lemma wh_idempotency_exact_match:
  "(wh_is_already_processed (wh_mark_as_processed drive_id item_id recorded s) drive_id item_id last_modified
      \<longleftrightarrow> last_modified = recorded)
   \<and> (enh_is_already_processed (enh_mark_as_processed drive_id item_id recorded tenant_id s)
         drive_id item_id last_modified tenant_id \<longleftrightarrow> last_modified = recorded)
   \<and> (\<not> it_deleted item \<and> it_file item \<noteq> None
        \<and> processed_files_cache s (drive_id @ ''_'' @ it_id item) = Some recorded \<longrightarrow>
        (it_lastModifiedDateTime item = recorded \<longrightarrow>
           wh_process_change w drive_id s item = s)
        \<and> (it_lastModifiedDateTime item \<noteq> recorded \<longrightarrow>
           wh_process_change w drive_id s item
             = wh_mark_as_processed drive_id (it_id item) (it_lastModifiedDateTime item)
                 (wh_ingest_single_file w drive_id (it_id item) s)))"
  by (auto simp: wh_is_already_processed_def wh_mark_as_processed_def enh_is_already_processed_def
      enh_mark_as_processed_def wh_process_change_def dict_get_def Let_def)

text \<open>
  Claim C1 on the webhook handler. The download of \<^verbatim>\<open>notes.txt\<close> fails, no call is made
  to the index, and still the record's last-modified value is in the cache afterwards:
  \<^verbatim>\<open>process_drive_delta\<close> calls \<^verbatim>\<open>mark_as_processed\<close> whatever
  \<^verbatim>\<open>ingest_single_file\<close> did, and the same record is skipped on the next cycle.
\<close>

theorem wh_marks_processed_after_failed_download:
  "index_calls (wh_process_change download_fails_world ''drive1'' empty_state notes_upsert) = []
   \<and> FailedToDownload ''notes.txt'' \<in> set (logged (wh_process_change download_fails_world ''drive1'' empty_state notes_upsert))
   \<and> processed_files_cache (wh_process_change download_fails_world ''drive1'' empty_state notes_upsert) ''drive1_item1''
       = Some (Some ''2025-01-02T10:00:00Z'')
   \<and> processed_files_cache empty_state ''drive1_item1'' = None
   \<and> wh_is_already_processed (wh_process_change download_fails_world ''drive1'' empty_state notes_upsert)
        ''drive1'' ''item1'' (Some ''2025-01-02T10:00:00Z'')"
  by (simp add: wh_process_change_def wh_is_already_processed_def wh_mark_as_processed_def
      wh_ingest_single_file_def get_file_info_def download_file_def download_fails_world_def
      quiet_world_def empty_state_def notes_upsert_def notes_info_def dict_get_def get_or_def
      truthy_def add_log_def ext_notes Let_def)

text \<open>
  In general: whatever ingestion did, the record's last-modified value is in the cache
  after an upsert record that was not recorded before.
\<close>

lemma wh_process_change_marks_always:
  "\<not> it_deleted item \<Longrightarrow> it_file item \<noteq> None \<Longrightarrow>
   \<not> wh_is_already_processed s drive_id (it_id item) (it_lastModifiedDateTime item) \<Longrightarrow>
   processed_files_cache (wh_process_change w drive_id s item) (drive_id @ ''_'' @ it_id item)
     = Some (it_lastModifiedDateTime item)"
  by (simp add: wh_process_change_def wh_mark_as_processed_def Let_def)

section \<open>Notification endpoints\<close>

text \<open>
  Claim C9 on the webhook handler: the handshake with token \<^verbatim>\<open>abc\<close> is answered with
  status 200 and the JSON object \<^verbatim>\<open>{"validationToken": "abc"}\<close>, not with the token as
  plain text.
\<close>

theorem wh_handshake_answers_json:
  "fst (wh_handle_graph_webhook quiet_world handshake_request empty_state)
     = \<lparr>resp_status = 200, resp_body = JsonObject [(''validationToken'', JStr ''abc'')],
        resp_content_type = ''application/json''\<rparr>
   \<and> resp_body (fst (wh_handle_graph_webhook quiet_world handshake_request empty_state)) \<noteq> PlainText ''abc''"
  by (simp add: wh_handle_graph_webhook_def handshake_request_def truthy_def Let_def)

text \<open>
  The enhanced handler does echo the token as plain text, and touches nothing.
\<close>

lemma enh_handshake_echo:
  "req_validationToken req = Some token \<Longrightarrow> token \<noteq> [] \<Longrightarrow>
   enh_main w req s = (\<lparr>resp_status = 200, resp_body = PlainText token, resp_content_type = ''text/plain''\<rparr>, s)"
  by (simp add: enh_main_def truthy_def Let_def)

text \<open>
  Claim C3 on the enhanced handler. The batch holds a valid notification followed by one
  with a forged client state. The answer is 401, but the first notification has been
  processed by then: the delta query ran and the chunk of the deleted file was removed
  from the index.
\<close>

theorem enh_main_processes_before_rejecting:
  "resp_status (fst (enh_main deletion_world mixed_batch indexed_state)) = 401
   \<and> index_calls (snd (enh_main deletion_world mixed_batch indexed_state)) = [Delete [''default_drive1_item1_0'']]
   \<and> index (snd (enh_main deletion_world mixed_batch indexed_state)) = []
   \<and> index indexed_state = [notes_doc]"
  by (simp add: enh_main_def mixed_batch_def deletion_world_def quiet_world_def indexed_state_def
      empty_state_def notes_doc_def notes_deletion_def validate_client_state_def truthy_def
      enh_process_notification_sync_def enh_process_drive_delta_def
      enh_process_single_item_change_def remove_file_from_index_def search_file_def
      delete_documents_def add_log_def get_or_def drive_of_resource Let_def)

text \<open>
  The webhook handler checks every client state before it schedules anything: a batch
  with one wrong client state is answered with 401 and the index is not touched.
\<close>

lemma wh_check_client_states_rejects:
  "\<exists>n \<in> set ns. n_clientState n \<noteq> Some (WEBHOOK_CLIENT_STATE w) \<Longrightarrow>
   \<not> fst (wh_check_client_states w ns s)
   \<and> index_calls (snd (wh_check_client_states w ns s)) = index_calls s
   \<and> index (snd (wh_check_client_states w ns s)) = index s"
  by (induction ns) (auto simp: add_log_def Let_def)

lemma wh_rejects_whole_batch:
  "\<not> truthy (req_validationToken req) \<Longrightarrow> req_json req = Object ns \<Longrightarrow>
   \<exists>n \<in> set ns. n_clientState n \<noteq> Some (WEBHOOK_CLIENT_STATE w) \<Longrightarrow>
   resp_status (fst (wh_handle_graph_webhook w req s)) = 401
   \<and> index_calls (snd (wh_handle_graph_webhook w req s)) = index_calls s
   \<and> index (snd (wh_handle_graph_webhook w req s)) = index s"
  using wh_check_client_states_rejects [of ns w s]
  by (auto simp: wh_handle_graph_webhook_def wh_validate_webhook_def Let_def split: prod.splits)

section \<open>Delta resolver\<close>

text \<open>
  Claim C4 on both handlers. The first page of the delta response is empty and links to
  a second page, which reports the deletion of \<^verbatim>\<open>item1\<close>. Processing that record would
  empty the index; after the cycle the webhook handler has changed nothing, and the
  enhanced handler has only logged that there are more pages.
\<close>

theorem delta_next_page_not_followed:
  "odata_nextLink (the (w_delta two_page_world ''drive1'')) = Some ''https://graph/page2''
   \<and> delta_value (the (w_delta_next two_page_world ''https://graph/page2'')) = [notes_deletion]
   \<and> index (wh_process_change two_page_world ''drive1'' indexed_state notes_deletion) = []
   \<and> wh_process_drive_delta two_page_world ''drive1'' indexed_state = indexed_state
   \<and> enh_process_drive_delta two_page_world ''drive1'' ''default'' indexed_state
       = add_log DeltaHasMorePages indexed_state
   \<and> index indexed_state = [notes_doc]"
  by (simp add: two_page_world_def quiet_world_def wh_process_drive_delta_def
      enh_process_drive_delta_def wh_process_change_def remove_file_from_index_def
      search_file_def delete_documents_def notes_deletion_def indexed_state_def empty_state_def
      notes_doc_def truthy_def add_log_def Let_def)

section \<open>Embedding failures\<close>

lemma py_strip_has_char: "py_strip s \<noteq> [] \<Longrightarrow> \<exists>c \<in> set s. \<not> is_space c"
proof -
  assume "py_strip s \<noteq> []"
  then obtain c where "c \<in> set (rev (dropWhile is_space (rev s)))" "\<not> is_space c"
    unfolding py_strip_def by (metis dropWhile_eq_Nil_conv)
  then have "c \<in> set (dropWhile is_space (rev s))" by simp
  then have "c \<in> set (rev s)" by (meson set_dropWhileD)
  then show ?thesis using \<open>\<not> is_space c\<close> by auto
qed

lemma split_acc_nonempty:
  "acc \<noteq> [] \<or> (\<exists>c \<in> set s. \<not> is_space c) \<Longrightarrow> split_acc acc s \<noteq> []"
  by (induction s arbitrary: acc) auto

lemma chunk_text_nonempty: "py_strip s \<noteq> [] \<Longrightarrow> chunk_text s \<noteq> []"
proof -
  assume "py_strip s \<noteq> []"
  then have "py_split s \<noteq> []"
    unfolding py_split_def using py_strip_has_char split_acc_nonempty by blast
  then have "0 < length (py_split s)" by simp
  then show ?thesis
    by (simp add: chunk_text_eq py_range_step chunk_size_def)
qed

lemma py_strip_empty: "py_strip s = [] \<Longrightarrow> \<forall>c \<in> set s. is_space c"
proof -
  assume a: "py_strip s = []"
  have "dropWhile is_space (rev s) = []"
  proof (rule ccontr)
    assume ne: "dropWhile is_space (rev s) \<noteq> []"
    then have "\<not> is_space (hd (dropWhile is_space (rev s)))" by (rule hd_dropWhile)
    moreover have "hd (dropWhile is_space (rev s)) \<in> set (rev (dropWhile is_space (rev s)))"
      using ne by simp
    ultimately have "dropWhile is_space (rev (dropWhile is_space (rev s))) \<noteq> []"
      by (metis dropWhile_eq_Nil_conv)
    then show False using a by (simp add: py_strip_def)
  qed
  then show ?thesis by (metis dropWhile_eq_Nil_conv set_rev)
qed

lemma split_acc_all_space: "\<forall>c \<in> set s. is_space c \<Longrightarrow> split_acc [] s = []"
  by (induction s) auto

lemma chunk_text_empty: "py_strip s = [] \<Longrightarrow> chunk_text s = []"
  using py_strip_empty [of s] split_acc_all_space [of s]
  by (simp add: chunk_text_eq py_split_def py_range_stop)

lemma uploaded_docs_add_log [simp]: "uploaded_docs (add_log e s) = uploaded_docs s"
  by (simp add: uploaded_docs_def add_log_def)

lemma uploaded_docs_index [simp]: "uploaded_docs (s\<lparr>index := i\<rparr>) = uploaded_docs s"
  by (simp add: uploaded_docs_def)

lemma uploaded_docs_call [simp]:
  "uploaded_docs (s\<lparr>index_calls := index_calls s @ [Upload ds]\<rparr>) = uploaded_docs s @ ds"
  by (simp add: uploaded_docs_def)

lemma uploaded_docs_embed [simp]: "uploaded_docs (snd (embed_text w t s)) = uploaded_docs s"
  by (simp add: embed_text_def split: option.splits)

lemma embed_text_vector:
  "fst (embed_text w snippet s) = (case w_embedding w snippet of None \<Rightarrow> mock_embedding | Some v \<Rightarrow> v)"
  by (simp add: embed_text_def split: option.splits)

lemma ingest_chunks_keeps:
  "set docs \<union> set (uploaded_docs s)
     \<subseteq> set (fst (ingest_chunks w title chunks docs n s))
         \<union> set (uploaded_docs (snd (snd (ingest_chunks w title chunks docs n s))))"
proof (induction chunks arbitrary: docs n s)
  case Nil
  then show ?case by simp
next
  case (Cons c chunks)
  obtain snippet idx where c: "c = (snippet, idx)" by (cases c)
  obtain v s1 where e: "embed_text w snippet s = (v, s1)" by (cases "embed_text w snippet s")
  have u: "uploaded_docs s1 = uploaded_docs s" using e uploaded_docs_embed [of w snippet s] by simp
  let ?d = "\<lparr>d_id = w_uuid4 w n, d_title = title, d_content = snippet, d_chunk = idx,
              d_vector = v, d_source_drive_id = None, d_source_item_id = None,
              d_tenant_id = None, d_last_modified = None, d_file_size_category = None\<rparr>"
  let ?docs1 = "docs @ [?d]"
  let ?s2 = "s1\<lparr>index_calls := index_calls s1 @ [Upload ?docs1]\<rparr>"
  consider (full_raises) "100 \<le> length ?docs1" "w_upload_raises w ?docs1"
    | (full_ok) "100 \<le> length ?docs1" "\<not> w_upload_raises w ?docs1"
    | (small) "\<not> 100 \<le> length ?docs1" by blast
  then show ?case
  proof cases
    case full_raises
    then have step: "ingest_chunks w title (c # chunks) docs n s
        = ingest_chunks w title chunks ?docs1 (n + 1) (add_log (ErrorProcessingChunk title) ?s2)"
      using c e by (simp add: Let_def)
    show ?thesis unfolding step
      using Cons.IH [of ?docs1 "add_log (ErrorProcessingChunk title) ?s2" "n + 1"] u by auto
  next
    case full_ok
    then have step: "ingest_chunks w title (c # chunks) docs n s
        = ingest_chunks w title chunks [] (n + 1)
            (add_log (UploadedLocalBatch (length ?docs1))
               (?s2\<lparr>index := upload_documents ?docs1 (index ?s2)\<rparr>))"
      using c e by (simp add: Let_def)
    show ?thesis unfolding step
      using Cons.IH [of "[]" "add_log (UploadedLocalBatch (length ?docs1))
               (?s2\<lparr>index := upload_documents ?docs1 (index ?s2)\<rparr>)" "n + 1"] u by auto
  next
    case small
    then have step: "ingest_chunks w title (c # chunks) docs n s
        = ingest_chunks w title chunks ?docs1 (n + 1) s1"
      using c e by (simp add: Let_def)
    show ?thesis unfolding step
      using Cons.IH [of ?docs1 s1 "n + 1"] u by auto
  qed
qed

lemma ingest_chunks_every_chunk:
  "c \<in> set chunks \<Longrightarrow>
   \<exists>d \<in> set (fst (ingest_chunks w title chunks docs n s))
          \<union> set (uploaded_docs (snd (snd (ingest_chunks w title chunks docs n s)))).
     d_title d = title \<and> d_content d = fst c \<and> d_chunk d = snd c
     \<and> d_vector d = (case w_embedding w (fst c) of None \<Rightarrow> mock_embedding | Some v \<Rightarrow> v)"
proof (induction chunks arbitrary: docs n s)
  case Nil
  then show ?case by simp
next
  case (Cons c' chunks)
  obtain snippet idx where c': "c' = (snippet, idx)" by (cases c')
  obtain v s1 where e: "embed_text w snippet s = (v, s1)" by (cases "embed_text w snippet s")
  have v: "v = (case w_embedding w snippet of None \<Rightarrow> mock_embedding | Some v \<Rightarrow> v)"
    using e embed_text_vector [of w snippet s] by simp
  let ?d = "\<lparr>d_id = w_uuid4 w n, d_title = title, d_content = snippet, d_chunk = idx,
              d_vector = v, d_source_drive_id = None, d_source_item_id = None,
              d_tenant_id = None, d_last_modified = None, d_file_size_category = None\<rparr>"
  let ?docs1 = "docs @ [?d]"
  let ?s2 = "s1\<lparr>index_calls := index_calls s1 @ [Upload ?docs1]\<rparr>"
  obtain docs2 s3 where step: "ingest_chunks w title (c' # chunks) docs n s
        = ingest_chunks w title chunks docs2 (n + 1) s3"
    and has: "?d \<in> set docs2 \<union> set (uploaded_docs s3)"
  proof (cases "100 \<le> length ?docs1")
    case True
    show ?thesis
    proof (cases "w_upload_raises w ?docs1")
      case True
      with \<open>100 \<le> length ?docs1\<close> that [of ?docs1 "add_log (ErrorProcessingChunk title) ?s2"] c' e
      show ?thesis by (simp add: Let_def)
    next
      case False
      with \<open>100 \<le> length ?docs1\<close>
        that [of "[]" "add_log (UploadedLocalBatch (length ?docs1))
               (?s2\<lparr>index := upload_documents ?docs1 (index ?s2)\<rparr>)"] c' e
      show ?thesis by (simp add: Let_def)
    qed
  next
    case False
    with that [of ?docs1 s1] c' e show ?thesis by (simp add: Let_def)
  qed
  show ?case
  proof (cases "c = c'")
    case True
    have "?d \<in> set (fst (ingest_chunks w title chunks docs2 (n + 1) s3))
          \<union> set (uploaded_docs (snd (snd (ingest_chunks w title chunks docs2 (n + 1) s3))))"
      using has ingest_chunks_keeps [of docs2 s3 w title chunks "n + 1"] by blast
    then show ?thesis unfolding step using True c' v by (intro bexI [of _ ?d]) simp_all
  next
    case False
    then have "c \<in> set chunks" using Cons.prems by simp
    then show ?thesis unfolding step using Cons.IH [of docs2 "n + 1" s3] by simp
  qed
qed

lemma ingest_files_keeps:
  "set docs \<union> set (uploaded_docs s)
     \<subseteq> set (fst (ingest_files w paths docs m n s))
         \<union> set (uploaded_docs (snd (snd (snd (ingest_files w paths docs m n s)))))"
proof (induction paths arbitrary: docs m n s)
  case Nil
  then show ?case by simp
next
  case (Cons p paths)
  show ?case
  proof (cases "w_isfile w p \<and> py_strip (extract_text w p) \<noteq> []")
    case True
    obtain docs1 n1 s1 where r: "ingest_chunks w (basename p) (chunk_text (extract_text w p)) docs n s
        = (docs1, n1, s1)"
      by (cases "ingest_chunks w (basename p) (chunk_text (extract_text w p)) docs n s")
    have k: "set docs \<union> set (uploaded_docs s) \<subseteq> set docs1 \<union> set (uploaded_docs s1)"
      using ingest_chunks_keeps [of docs s w "basename p" "chunk_text (extract_text w p)" n] r by simp
    have step: "ingest_files w (p # paths) docs m n s = ingest_files w paths docs1 (m + 1) n1 s1"
      using True r by (simp add: Let_def)
    show ?thesis unfolding step using Cons.IH [of docs1 s1 "m + 1" n1] k by blast
  next
    case False
    then consider "\<not> w_isfile w p" | "w_isfile w p" "py_strip (extract_text w p) = []" by blast
    then show ?thesis
    proof cases
      case 1
      then have "ingest_files w (p # paths) docs m n s = ingest_files w paths docs m n s" by simp
      then show ?thesis using Cons.IH [of docs s m n] by simp
    next
      case 2
      then have "ingest_files w (p # paths) docs m n s
          = ingest_files w paths docs m n (add_log (NoTextExtracted p) s)" by (simp add: Let_def)
      then show ?thesis using Cons.IH [of docs "add_log (NoTextExtracted p) s" m n] by simp
    qed
  qed
qed

lemma ingest_files_every_chunk:
  "file_path \<in> set paths \<Longrightarrow> w_isfile w file_path \<Longrightarrow>
   c \<in> set (chunk_text (extract_text w file_path)) \<Longrightarrow>
   \<exists>d \<in> set (fst (ingest_files w paths docs m n s))
          \<union> set (uploaded_docs (snd (snd (snd (ingest_files w paths docs m n s))))).
     d_title d = basename file_path \<and> d_content d = fst c \<and> d_chunk d = snd c
     \<and> d_vector d = (case w_embedding w (fst c) of None \<Rightarrow> mock_embedding | Some v \<Rightarrow> v)"
proof (induction paths arbitrary: docs m n s)
  case Nil
  then show ?case by simp
next
  case (Cons p paths)
  show ?case
  proof (cases "w_isfile w p \<and> py_strip (extract_text w p) \<noteq> []")
    case True
    obtain docs1 n1 s1 where r: "ingest_chunks w (basename p) (chunk_text (extract_text w p)) docs n s
        = (docs1, n1, s1)"
      by (cases "ingest_chunks w (basename p) (chunk_text (extract_text w p)) docs n s")
    have step: "ingest_files w (p # paths) docs m n s = ingest_files w paths docs1 (m + 1) n1 s1"
      using True r by (simp add: Let_def)
    show ?thesis
    proof (cases "file_path = p")
      case True
      then have "c \<in> set (chunk_text (extract_text w p))" using Cons.prems by simp
      then obtain d where d: "d \<in> set docs1 \<union> set (uploaded_docs s1)"
        "d_title d = basename p \<and> d_content d = fst c \<and> d_chunk d = snd c
         \<and> d_vector d = (case w_embedding w (fst c) of None \<Rightarrow> mock_embedding | Some v \<Rightarrow> v)"
        using ingest_chunks_every_chunk [of c "chunk_text (extract_text w p)" w "basename p" docs n s] r
        by auto
      have "d \<in> set (fst (ingest_files w paths docs1 (m + 1) n1 s1))
          \<union> set (uploaded_docs (snd (snd (snd (ingest_files w paths docs1 (m + 1) n1 s1)))))"
        using d(1) ingest_files_keeps [of docs1 s1 w paths "m + 1" n1] by blast
      then show ?thesis unfolding step using d(2) True by blast
    next
      case False
      then have "file_path \<in> set paths" using Cons.prems by simp
      then show ?thesis unfolding step using Cons.IH [of docs1 "m + 1" n1 s1] Cons.prems by simp
    qed
  next
    case False
    have other: "file_path \<noteq> p"
    proof
      assume "file_path = p"
      then have "py_strip (extract_text w p) = []" using False Cons.prems by simp
      then have "chunk_text (extract_text w p) = []" by (rule chunk_text_empty)
      then show False using Cons.prems \<open>file_path = p\<close> by simp
    qed
    then have mem: "file_path \<in> set paths" using Cons.prems by simp
    from False consider "\<not> w_isfile w p" | "w_isfile w p" "py_strip (extract_text w p) = []" by blast
    then show ?thesis
    proof cases
      case 1
      then have "ingest_files w (p # paths) docs m n s = ingest_files w paths docs m n s" by simp
      then show ?thesis using Cons.IH [OF mem, of docs m n s] Cons.prems by simp
    next
      case 2
      then have "ingest_files w (p # paths) docs m n s
          = ingest_files w paths docs m n (add_log (NoTextExtracted p) s)" by (simp add: Let_def)
      then show ?thesis using Cons.IH [OF mem, of docs m n "add_log (NoTextExtracted p) s"] Cons.prems
        by simp
    qed
  qed
qed

lemma ingest_documents_every_chunk:
  "w_path_exists w folder_path \<Longrightarrow> file_path \<in> set (w_glob w folder_path) \<Longrightarrow>
   w_isfile w file_path \<Longrightarrow> c \<in> set (chunk_text (extract_text w file_path)) \<Longrightarrow>
   \<exists>d \<in> set (uploaded_docs (snd (ingest_documents w folder_path s))).
     d_title d = basename file_path \<and> d_content d = fst c \<and> d_chunk d = snd c
     \<and> d_vector d = (case w_embedding w (fst c) of None \<Rightarrow> mock_embedding | Some v \<Rightarrow> v)"
proof -
  assume a: "w_path_exists w folder_path" "file_path \<in> set (w_glob w folder_path)"
    "w_isfile w file_path" "c \<in> set (chunk_text (extract_text w file_path))"
  obtain docs m n s1 where r: "ingest_files w (w_glob w folder_path) [] 0 0 s = (docs, m, n, s1)"
    by (cases "ingest_files w (w_glob w folder_path) [] 0 0 s")
  obtain d where d: "d \<in> set docs \<union> set (uploaded_docs s1)"
    "d_title d = basename file_path \<and> d_content d = fst c \<and> d_chunk d = snd c
     \<and> d_vector d = (case w_embedding w (fst c) of None \<Rightarrow> mock_embedding | Some v \<Rightarrow> v)"
    using ingest_files_every_chunk [OF a(2) a(3) a(4), of "[]" 0 0 s] r by auto
  have "d \<in> set (uploaded_docs (snd (ingest_documents w folder_path s)))"
  proof (cases "docs = []")
    case True
    then show ?thesis using d(1) a(1) r by (simp add: ingest_documents_def)
  next
    case False
    then show ?thesis using d(1) a(1) r by (auto simp: ingest_documents_def Let_def)
  qed
  then show ?thesis using d(2) by blast
qed

lemma embed_text_index:
  "index (snd (embed_text w snippet s)) = index s
   \<and> index_calls (snd (embed_text w snippet s)) = index_calls s"
  by (simp add: embed_text_def add_log_def split: option.splits)

lemma ingest_chunks_small:
  "length docs + length chunks < 100 \<Longrightarrow>
   map d_content (fst (ingest_chunks w title chunks docs n s)) = map d_content docs @ map fst chunks
   \<and> map d_vector (fst (ingest_chunks w title chunks docs n s))
       = map d_vector docs
         @ map (\<lambda>c. case w_embedding w (fst c) of None \<Rightarrow> mock_embedding | Some v \<Rightarrow> v) chunks
   \<and> index (snd (snd (ingest_chunks w title chunks docs n s))) = index s
   \<and> index_calls (snd (snd (ingest_chunks w title chunks docs n s))) = index_calls s"
proof (induction chunks arbitrary: docs n s)
  case Nil
  then show ?case by simp
next
  case (Cons c chunks)
  obtain snippet idx where c: "c = (snippet, idx)" by (cases c)
  obtain v s1 where e: "embed_text w snippet s = (v, s1)" by (cases "embed_text w snippet s")
  have v: "v = (case w_embedding w snippet of None \<Rightarrow> mock_embedding | Some v \<Rightarrow> v)"
    using e embed_text_vector [of w snippet s] by simp
  have s1: "index s1 = index s \<and> index_calls s1 = index_calls s"
    using e embed_text_index [of w snippet s] by simp
  let ?d = "\<lparr>d_id = w_uuid4 w n, d_title = title, d_content = snippet, d_chunk = idx,
              d_vector = v, d_source_drive_id = None, d_source_item_id = None,
              d_tenant_id = None, d_last_modified = None, d_file_size_category = None\<rparr>"
  have small: "length (docs @ [?d]) + length chunks < 100" using Cons.prems by simp
  have step: "ingest_chunks w title (c # chunks) docs n s
                = ingest_chunks w title chunks (docs @ [?d]) (n + 1) s1"
    using Cons.prems c e by (simp add: Let_def)
  show ?case
    unfolding step using Cons.IH [OF small, of "n + 1" s1] s1 c v by simp
qed

lemma ingest_documents_single_file:
  assumes "w_path_exists w folder_path" and "w_glob w folder_path = [file_path]"
    and "w_isfile w file_path" and "py_strip (extract_text w file_path) \<noteq> []"
    and "length (chunk_text (extract_text w file_path)) < 100"
  shows "\<exists>docs. index_calls (snd (ingest_documents w folder_path s)) = index_calls s @ [Upload docs]
           \<and> map d_content docs = map fst (chunk_text (extract_text w file_path))
           \<and> map d_vector docs
               = map (\<lambda>c. case w_embedding w (fst c) of None \<Rightarrow> mock_embedding | Some v \<Rightarrow> v)
                   (chunk_text (extract_text w file_path))
           \<and> (\<not> w_upload_raises w docs \<longrightarrow>
                 index (snd (ingest_documents w folder_path s)) = upload_documents docs (index s))"
proof -
  let ?chunks = "chunk_text (extract_text w file_path)"
  obtain docs n s1 where r: "ingest_chunks w (basename file_path) ?chunks [] 0 s = (docs, n, s1)"
    by (cases "ingest_chunks w (basename file_path) ?chunks [] 0 s")
  have small: "length ([] :: doc list) + length ?chunks < 100" using assms(5) by simp
  have facts: "map d_content docs = map fst ?chunks
      \<and> map d_vector docs
          = map (\<lambda>c. case w_embedding w (fst c) of None \<Rightarrow> mock_embedding | Some v \<Rightarrow> v) ?chunks
      \<and> index s1 = index s \<and> index_calls s1 = index_calls s"
    using ingest_chunks_small [OF small, of w "basename file_path" 0 s] r by simp
  have "?chunks \<noteq> []" using assms(4) chunk_text_nonempty by blast
  then have ne: "docs \<noteq> []" using facts by (metis map_is_Nil_conv)
  have files: "ingest_files w [file_path] [] 0 0 s = (docs, 1, n, s1)"
    using assms r by (simp add: Let_def)
  have calls: "index_calls (snd (ingest_documents w folder_path s)) = index_calls s @ [Upload docs]"
    using assms files ne facts by (simp add: ingest_documents_def add_log_def Let_def)
  have idx: "index (snd (ingest_documents w folder_path s)) = upload_documents docs (index s)"
    if "\<not> w_upload_raises w docs"
    using that assms files ne facts by (simp add: ingest_documents_def add_log_def Let_def)
  show ?thesis
    using calls facts idx by (intro exI [of _ docs]) simp
qed

lemma local_extract: "extract_text local_folder_world ''sample_docs/notes.txt'' = ''hello world''"
  by (simp add: extract_text_def ext_local_notes local_folder_world_def quiet_world_def Let_def)

lemma local_folder_answers:
  "w_path_exists local_folder_world ''sample_docs''"
  "w_glob local_folder_world ''sample_docs'' = [''sample_docs/notes.txt'']"
  "w_isfile local_folder_world ''sample_docs/notes.txt''"
  "w_embedding local_folder_world ''hello world'' = None"
  "w_uuid4 local_folder_world 0 = ''0b1e6c1e-7f2a-4d3b-9c5e-000000000000''"
  "\<not> w_upload_raises local_folder_world docs"
  by (simp_all add: local_folder_world_def quiet_world_def str_nat_0)

text \<open>
  Claim C5, as stated, fails. The folder of the local ingestion script holds the one file
  \<^verbatim>\<open>notes.txt\<close> with the single chunk \<^verbatim>\<open>hello world\<close>, and the embedding service is
  down: the script returns normally, the two messages of \<^verbatim>\<open>embed_text\<close> are logged, and
  a document for the chunk, with the mock vector, has been uploaded and is in the index.
\<close>

theorem embedding_failure_counterexample:
  "w_embedding local_folder_world ''hello world'' = None
   \<and> extract_text local_folder_world ''sample_docs/notes.txt'' = ''hello world''
   \<and> chunk_text ''hello world'' = [(''hello world'', 0)]
   \<and> ingest_documents local_folder_world ''sample_docs'' empty_state
       = (True,
          \<lparr>index = [\<lparr>d_id = ''0b1e6c1e-7f2a-4d3b-9c5e-000000000000'', d_title = ''notes.txt'',
                      d_content = ''hello world'', d_chunk = 0, d_vector = mock_embedding,
                      d_source_drive_id = None, d_source_item_id = None, d_tenant_id = None,
                      d_last_modified = None, d_file_size_category = None\<rparr>],
           index_calls = [Upload [\<lparr>d_id = ''0b1e6c1e-7f2a-4d3b-9c5e-000000000000'',
                                   d_title = ''notes.txt'', d_content = ''hello world'', d_chunk = 0,
                                   d_vector = mock_embedding, d_source_drive_id = None,
                                   d_source_item_id = None, d_tenant_id = None,
                                   d_last_modified = None, d_file_size_category = None\<rparr>]],
           processed_files_cache = Map.empty, tmp_files = {}, queue = [],
           logged = [AzureOpenAIError, FallingBackToMockEmbedding, UploadedFinalBatch 1]\<rparr>)"
  by (simp add: ingest_documents_def local_folder_answers local_extract chunk_hello strip_hello
      basename_local_notes embed_text_def add_log_def upload_documents_def empty_state_def Let_def)

text \<open>
  Claim C5, amended. When the call to the embedding service fails for a chunk,
  \<^verbatim>\<open>embed_text\<close> logs the failure and answers the mock vector of 1536 entries instead of
  raising, so the chunk is not dropped. In \<^verbatim>\<open>ingest_documents\<close>, for every file of the
  folder and every chunk of its text, a document with the file's name, the chunk, its
  index and the vector of the service or else the mock vector is handed to
  \<^verbatim>\<open>upload_documents\<close>; and for a folder of one file with fewer than 100 chunks there is
  one upload, of one document for every chunk in order, after which the index holds these
  documents when the upload does not raise.
\<close>

theorem embedding_failure_falls_back:
  "(w_embedding w snippet = None \<longrightarrow>
      embed_text w snippet s
        = (mock_embedding, add_log FallingBackToMockEmbedding (add_log AzureOpenAIError s)))
   \<and> length mock_embedding = 1536
   \<and> (w_path_exists w folder_path \<and> file_path \<in> set (w_glob w folder_path) \<and> w_isfile w file_path
        \<and> c \<in> set (chunk_text (extract_text w file_path)) \<longrightarrow>
        (\<exists>d \<in> set (uploaded_docs (snd (ingest_documents w folder_path s))).
           d_title d = basename file_path \<and> d_content d = fst c \<and> d_chunk d = snd c
           \<and> d_vector d = (case w_embedding w (fst c) of None \<Rightarrow> mock_embedding | Some v \<Rightarrow> v)))
   \<and> (w_path_exists w folder_path \<and> w_glob w folder_path = [file_path] \<and> w_isfile w file_path
        \<and> py_strip (extract_text w file_path) \<noteq> []
        \<and> length (chunk_text (extract_text w file_path)) < 100 \<longrightarrow>
        (\<exists>docs. index_calls (snd (ingest_documents w folder_path s)) = index_calls s @ [Upload docs]
           \<and> map d_content docs = map fst (chunk_text (extract_text w file_path))
           \<and> map d_vector docs
               = map (\<lambda>c. case w_embedding w (fst c) of None \<Rightarrow> mock_embedding | Some v \<Rightarrow> v)
                   (chunk_text (extract_text w file_path))
           \<and> (\<not> w_upload_raises w docs \<longrightarrow>
                 index (snd (ingest_documents w folder_path s)) = upload_documents docs (index s))))"
proof (intro conjI impI)
  show "embed_text w snippet s
        = (mock_embedding, add_log FallingBackToMockEmbedding (add_log AzureOpenAIError s))"
    if "w_embedding w snippet = None"
    using that by (simp add: embed_text_def)
  show "length mock_embedding = 1536"
    by (simp add: mock_embedding_def)
next
  assume "w_path_exists w folder_path \<and> file_path \<in> set (w_glob w folder_path) \<and> w_isfile w file_path
        \<and> c \<in> set (chunk_text (extract_text w file_path))"
  then show "\<exists>d \<in> set (uploaded_docs (snd (ingest_documents w folder_path s))).
           d_title d = basename file_path \<and> d_content d = fst c \<and> d_chunk d = snd c
           \<and> d_vector d = (case w_embedding w (fst c) of None \<Rightarrow> mock_embedding | Some v \<Rightarrow> v)"
    using ingest_documents_every_chunk [of w folder_path file_path c s] by blast
next
  assume "w_path_exists w folder_path \<and> w_glob w folder_path = [file_path] \<and> w_isfile w file_path
        \<and> py_strip (extract_text w file_path) \<noteq> []
        \<and> length (chunk_text (extract_text w file_path)) < 100"
  then show "\<exists>docs. index_calls (snd (ingest_documents w folder_path s)) = index_calls s @ [Upload docs]
           \<and> map d_content docs = map fst (chunk_text (extract_text w file_path))
           \<and> map d_vector docs
               = map (\<lambda>c. case w_embedding w (fst c) of None \<Rightarrow> mock_embedding | Some v \<Rightarrow> v)
                   (chunk_text (extract_text w file_path))
           \<and> (\<not> w_upload_raises w docs \<longrightarrow>
                 index (snd (ingest_documents w folder_path s)) = upload_documents docs (index s))"
    using ingest_documents_single_file [of w folder_path file_path s] by blast
qed

theorem embedding_failure_falls_back_witness:
  "embed_text local_folder_world ''hello world'' empty_state
     = (mock_embedding, add_log FallingBackToMockEmbedding (add_log AzureOpenAIError empty_state))
   \<and> (\<exists>d \<in> set (uploaded_docs (snd (ingest_documents local_folder_world ''sample_docs'' empty_state))).
          d_title d = ''notes.txt'' \<and> d_content d = ''hello world'' \<and> d_chunk d = 0
          \<and> d_vector d = mock_embedding)
   \<and> (\<exists>docs. index_calls (snd (ingest_documents local_folder_world ''sample_docs'' empty_state))
                 = [Upload docs]
          \<and> map d_content docs = [''hello world'']
          \<and> map d_vector docs = [mock_embedding]
          \<and> index (snd (ingest_documents local_folder_world ''sample_docs'' empty_state))
              = upload_documents docs [])"
  using embedding_failure_falls_back [where w = local_folder_world and snippet = "''hello world''"
      and s = empty_state and folder_path = "''sample_docs''"
      and file_path = "''sample_docs/notes.txt''" and c = "(''hello world'', 0)"]
  by (simp add: local_folder_answers local_extract chunk_hello strip_hello basename_local_notes)
    (simp add: empty_state_def)

text \<open>
  The chunk loop of \<^verbatim>\<open>ingest_single_file\<close> in the enhanced handler has the same shape:
  it builds one document for every chunk it is given, with the vector of the service or
  else the mock vector, and drops none.
\<close>

lemma enh_build_docs_fst:
  "fst (enh_build_docs w drive_id item_id file_name tenant_id chunks docs s) =
     docs @ map (\<lambda>c. \<lparr>d_id = tenant_id @ ''_'' @ drive_id @ ''_'' @ item_id @ ''_'' @ str_nat (snd c),
                       d_title = file_name, d_content = fst c, d_chunk = snd c,
                       d_vector = (case w_embedding w (fst c) of None \<Rightarrow> mock_embedding | Some v \<Rightarrow> v),
                       d_source_drive_id = Some drive_id, d_source_item_id = Some item_id,
                       d_tenant_id = Some tenant_id, d_last_modified = Some (w_utcnow w),
                       d_file_size_category = None\<rparr>) chunks"
  by (induction chunks arbitrary: docs s) (auto simp: embed_text_def split: option.splits)

section \<open>Temporary files\<close>

text \<open>
  A path that \<^verbatim>\<open>mkstemp\<close> makes without a suffix has no extension, so that
  \<^verbatim>\<open>extract_text\<close> finds no text in a file that \<^verbatim>\<open>download_file\<close> wrote.
\<close>

lemma random_character_plain:
  "random_characters ! (i mod length random_characters) \<noteq> CHR ''/''
   \<and> random_characters ! (i mod length random_characters) \<noteq> CHR ''.''"
proof -
  have "i mod length random_characters < length random_characters"
    by (simp add: random_characters_def)
  then have "random_characters ! (i mod length random_characters) \<in> set random_characters"
    by (rule nth_mem)
  moreover have "CHR ''/'' \<notin> set random_characters \<and> CHR ''.'' \<notin> set random_characters"
    by (simp add: random_characters_def)
  ultimately show ?thesis by metis
qed

lemma mkstemp_no_extension: "splitext_ext (mkstemp w choices []) = []"
proof -
  let ?name = "''tmp'' @ map (\<lambda>i. random_characters ! (i mod length random_characters)) choices"
  have plain: "\<forall>c \<in> set ?name. c \<noteq> CHR ''/'' \<and> c \<noteq> CHR ''.''"
    using random_character_plain by auto
  have path: "mkstemp w choices [] = w_tmpdir w @ CHR ''/'' # ?name"
    by (simp add: mkstemp_def)
  have "rev (mkstemp w choices []) = rev ?name @ CHR ''/'' # rev (w_tmpdir w)"
    unfolding path by simp
  moreover have "takeWhile (\<lambda>c. c \<noteq> CHR ''/'') (rev ?name @ CHR ''/'' # rev (w_tmpdir w)) = rev ?name"
    using plain by (subst takeWhile_tail) (simp_all add: takeWhile_eq_all_conv)
  ultimately have base: "rev (takeWhile (\<lambda>c. c \<noteq> CHR ''/'') (rev (mkstemp w choices []))) = ?name"
    by (simp only: rev_rev_ident)
  have "dropWhile (\<lambda>c. c = CHR ''.'') ?name = ?name" by simp
  moreover have "CHR ''.'' \<notin> set ?name" using plain by blast
  ultimately show ?thesis unfolding splitext_ext_def base by (simp only: Let_def if_False)
qed

lemma mkstemp_nonempty: "mkstemp w choices suffix \<noteq> []"
  by (simp add: mkstemp_def)

lemma extract_text_after_download: "extract_text w (mkstemp w choices []) = []"
  by (simp add: extract_text_def mkstemp_no_extension lower_def Let_def)

lemma py_strip_Nil: "py_strip [] = []"
  by (simp add: py_strip_def)

lemma tmp_files_add_log [simp]: "tmp_files (add_log e s) = tmp_files s"
  by (simp add: add_log_def)

lemma tmp_files_embed_text [simp]: "tmp_files (snd (embed_text w t s)) = tmp_files s"
  by (simp add: embed_text_def split: option.splits)

lemma tmp_files_remove_file_from_index [simp]:
  "tmp_files (remove_file_from_index w d i t s) = tmp_files s"
  by (simp add: remove_file_from_index_def Let_def)

lemma tmp_files_upload_batches [simp]:
  "tmp_files (snd (upload_batches w n d i t k chunks batch s)) = tmp_files s"
proof (induction chunks arbitrary: batch s)
  case Nil
  then show ?case by (simp add: Let_def)
next
  case (Cons c chunks)
  obtain snippet idx where c: "c = (snippet, idx)" by (cases c)
  obtain v s1 where e: "embed_text w snippet s = (v, s1)" by (cases "embed_text w snippet s")
  then have "tmp_files s1 = tmp_files s" using tmp_files_embed_text [of w snippet s] by simp
  then show ?case using Cons.IH c e by (simp add: Let_def)
qed

lemma tmp_files_process_file_in_chunks [simp]:
  "tmp_files (snd (process_file_in_chunks w p d i n t s)) = tmp_files s"
proof -
  let ?r = "upload_batches w n d i t 10 (chunk_text (extract_text w p)) []
              (remove_file_from_index w d i (Some t) s)"
  obtain ok s1 where r: "?r = (ok, s1)" by (cases ?r)
  have "tmp_files (snd ?r) = tmp_files s" by simp
  then have "tmp_files s1 = tmp_files s" using r by simp
  then show ?thesis using r by (cases ok) (simp_all add: process_file_in_chunks_def Let_def)
qed

text \<open>
  Claim C8 on the webhook handler. \<^verbatim>\<open>mkstemp\<close> has created \<^verbatim>\<open>/tmp/tmpq1w2e3r4\<close> when the
  download breaks: \<^verbatim>\<open>download_file\<close> answers \<^verbatim>\<open>None\<close> without removing the file,
  \<^verbatim>\<open>ingest_single_file\<close> logs the failed download and returns, and the file stays on
  disk. The enhanced handler leaves it too: its \<^verbatim>\<open>finally\<close> block has no path to remove.
\<close>

theorem download_failure_leaves_temp_file:
  "tmp_files empty_state = {}
   \<and> tmp_files (wh_ingest_single_file download_breaks_world ''drive1'' ''item1'' empty_state)
       = {''/tmp/tmpq1w2e3r4''}
   \<and> FailedToDownload ''notes.txt''
       \<in> set (logged (wh_ingest_single_file download_breaks_world ''drive1'' ''item1'' empty_state))
   \<and> tmp_files (enh_ingest_single_file download_breaks_world ''drive1'' ''item1'' ''notes.txt'' ''default''
                   empty_state) = {''/tmp/tmpq1w2e3r4''}"
proof -
  have p: "mkstemp download_breaks_world [16, 27, 22, 28, 4, 29, 17, 30] [] = ''/tmp/tmpq1w2e3r4''"
    by (rule mkstemp_q1w2e3r4) (simp add: download_breaks_world_def quiet_world_def)
  have d: "w_download download_breaks_world ''drive1'' ''item1''
             = FailedAfterCreate [16, 27, 22, 28, 4, 29, 17, 30]"
    and i: "w_file_info download_breaks_world ''drive1'' ''item1'' = Some notes_info"
    by (simp_all add: download_breaks_world_def quiet_world_def)
  show ?thesis
    by (simp add: wh_ingest_single_file_def enh_ingest_single_file_def enh_ingest_body_def
        get_file_info_def download_file_def p d i empty_state_def notes_info_def get_or_def
        truthy_def add_log_def ext_notes Let_def)
qed

text \<open>
  On the other ways out the file is released. After a download that succeeds, either
  handler finds no text in the file and removes it, without a call to the index; and
  \<^verbatim>\<open>process_large_file\<close>, whose download removes the file itself when it breaks, removes
  a downloaded file in its \<^verbatim>\<open>finally\<close> block.
\<close>

lemma wh_ingest_single_file_never_reaches_index:
  "index (wh_ingest_single_file w drive_id item_id s) = index s
   \<and> index_calls (wh_ingest_single_file w drive_id item_id s) = index_calls s"
  by (simp add: wh_ingest_single_file_def get_file_info_def download_file_def
      extract_text_after_download py_strip_Nil truthy_def add_log_def unlink_def Let_def
      split: option.splits download_outcome.splits)

lemma enh_ingest_single_file_never_reaches_index:
  "index (enh_ingest_single_file w drive_id item_id file_name tenant_id s) = index s
   \<and> index_calls (enh_ingest_single_file w drive_id item_id file_name tenant_id s) = index_calls s"
  by (simp add: enh_ingest_single_file_def enh_ingest_body_def download_file_def
      extract_text_after_download py_strip_Nil truthy_def add_log_def unlink_def mkstemp_nonempty
      Let_def split: download_outcome.splits)

lemma wh_ingest_single_file_cleans_up_after_download:
  "w_download w drive_id item_id = Downloaded choices \<Longrightarrow>
   mkstemp w choices [] \<notin> tmp_files s \<Longrightarrow>
   mkstemp w choices [] \<notin> tmp_files (wh_ingest_single_file w drive_id item_id s)"
  by (simp add: wh_ingest_single_file_def get_file_info_def download_file_def
      extract_text_after_download py_strip_Nil truthy_def add_log_def unlink_def mkstemp_nonempty
      Let_def split: option.splits)

lemma enh_ingest_single_file_cleans_up:
  "w_download w drive_id item_id = Downloaded choices \<Longrightarrow>
   mkstemp w choices [] \<notin> tmp_files (enh_ingest_single_file w drive_id item_id file_name tenant_id s)"
  by (simp add: enh_ingest_single_file_def enh_ingest_body_def download_file_def
      extract_text_after_download py_strip_Nil truthy_def add_log_def unlink_def mkstemp_nonempty
      Let_def)

lemma process_large_file_cleans_up:
  "w_stream_download w drive_id item_id file_name = Downloaded choices \<Longrightarrow>
   mkstemp w choices (''_'' @ file_name)
     \<notin> tmp_files (snd (process_large_file w drive_id item_id file_name file_size tenant_id s))"
proof -
  assume d: "w_stream_download w drive_id item_id file_name = Downloaded choices"
  let ?p = "mkstemp w choices (''_'' @ file_name)"
  let ?s1 = "s\<lparr>tmp_files := insert ?p (tmp_files s)\<rparr>"
  obtain ok s2 where r: "process_file_in_chunks w ?p drive_id item_id file_name tenant_id ?s1 = (ok, s2)"
    by (cases "process_file_in_chunks w ?p drive_id item_id file_name tenant_id ?s1")
  then have "tmp_files s2 = insert ?p (tmp_files s)"
    using tmp_files_process_file_in_chunks [of w ?p drive_id item_id file_name tenant_id ?s1] by simp
  then show ?thesis using d r mkstemp_nonempty [of w choices "''_'' @ file_name"]
    by (simp add: process_large_file_def stream_download_large_file_def truthy_def unlink_def Let_def)
qed

end
